theory Spec2Isabelle
  imports Complex_Main "HOL-Library.Log_Nat"
begin

text \<open>
  Attendance by rotating QR codes. This theory embeds the three lecturer routes of the
  backend that carry the protocol: scanning a student's code, completing a session, and
  the statistics. Each handler is a function on an explicit store holding the tables of
  \<open>db/schema.ts\<close>; replies and exceptions are values. JavaScript built-ins the handlers
  call (\<open>JSON.parse\<close>, the date parser, number arithmetic, \<open>Set\<close>, \<open>Map\<close>) are
  modelled as far as the handlers use them.
\<close>

section \<open>JavaScript numbers\<close>

text \<open>
  The lecturer routes compute with JavaScript numbers: IEEE binary64 values and \<open>NaN\<close>.
  A finite number is held as the rational it denotes. Every arithmetic result is rounded
  to the nearest binary64 value, ties to even, by \<open>fl64\<close>. The handlers only produce
  magnitudes far inside the normal range (millisecond differences of two dates, ratios
  of two record counts), so the exponent is left unbounded: there is no overflow to
  infinity and no subnormal range in the model.
\<close>

datatype jsnum = NaN | Num rat

text \<open>\<open>ilog2 x\<close> is the binary exponent of a positive rational: \<open>2 ^ ilog2 x \<le> x < 2 ^ (ilog2 x + 1)\<close>.\<close>

definition ilog2 :: "rat \<Rightarrow> int" where
  "ilog2 x = (if 1 \<le> x then bitlen \<lfloor>x\<rfloor> - 1 else - bitlen (\<lceil>1 / x\<rceil> - 1))"

definition round_ties_even :: "rat \<Rightarrow> int" where
  "round_ties_even x =
     (let f = \<lfloor>x\<rfloor>; d = x - of_int f
      in if d < 1 / 2 then f
         else if 1 / 2 < d then f + 1
         else if even f then f else f + 1)"

text \<open>The unit in the last place of the binade of \<open>x\<close>: 53 significant bits.\<close>

definition ulp64 :: "rat \<Rightarrow> rat" where
  "ulp64 x = power_int 2 (ilog2 \<bar>x\<bar> - 52)"

definition fl64 :: "rat \<Rightarrow> rat" where
  "fl64 x = (if x = 0 then 0 else of_int (round_ties_even (x / ulp64 x)) * ulp64 x)"

fun js_sub :: "jsnum \<Rightarrow> jsnum \<Rightarrow> jsnum" where
  "js_sub (Num a) (Num b) = Num (fl64 (a - b))"
| "js_sub _ _ = NaN"

text \<open>
  The handlers divide by \<open>1000\<close> and by a count they have tested to be \<open>> 0\<close>, never by
  zero. JavaScript's quotient by zero is an infinity or \<open>NaN\<close>; the model has no
  infinities and gives \<open>NaN\<close> there.
\<close>

fun js_div :: "jsnum \<Rightarrow> jsnum \<Rightarrow> jsnum" where
  "js_div (Num a) (Num b) = (if b = 0 then NaN else Num (fl64 (a / b)))"
| "js_div _ _ = NaN"

fun js_mul :: "jsnum \<Rightarrow> jsnum \<Rightarrow> jsnum" where
  "js_mul (Num a) (Num b) = Num (fl64 (a * b))"
| "js_mul _ _ = NaN"

text \<open>Every comparison with \<open>NaN\<close> is false.\<close>

fun js_lt :: "jsnum \<Rightarrow> jsnum \<Rightarrow> bool" where
  "js_lt (Num a) (Num b) = (a < b)"
| "js_lt _ _ = False"

fun js_gt :: "jsnum \<Rightarrow> jsnum \<Rightarrow> bool" where
  "js_gt (Num a) (Num b) = (b < a)"
| "js_gt _ _ = False"

text \<open>\<open>Math.round\<close>: the nearest integer, a tie going up.\<close>

fun Math_round :: "jsnum \<Rightarrow> jsnum" where
  "Math_round (Num a) = Num (of_int \<lfloor>a + 1 / 2\<rfloor>)"
| "Math_round NaN = NaN"

section \<open>The store\<close>

text \<open>
  The tables of \<open>schema.ts\<close> and the \<open>user\<close> table of the migration, as lists of
  rows. Generated columns no handler reads back (\<open>id\<close> of a record, \<open>createdAt\<close>) are
  left out. Timestamps are milliseconds since the epoch.
\<close>

datatype session_status = Active | Completed

datatype attendance_status = Present | Absent

record user =
  user_id :: string
  user_name :: string
  user_role :: string

record attendance_session =
  session_id :: string
  session_courseId :: string
  session_lecturerId :: string
  session_week :: int
  session_date :: string
  session_time :: string
  session_status :: session_status

record attendance_record =
  record_sessionId :: string
  record_studentId :: string
  record_status :: attendance_status
  record_scanTime :: "int option"

record store =
  users :: "user list"
  attendanceSessions :: "attendance_session list"
  attendanceRecords :: "attendance_record list"

text \<open>
  What a handler can end with other than its success value: a reply it sends itself
  (status code and the \<open>error\<close> text), or an exception that its outer \<open>catch\<close> logs
  and rethrows. The store throws when the unique index rejects an insert, when a text
  that is not a uuid is compared with a uuid column, and when it cannot answer at all.
\<close>

datatype thrown = UniqueViolation | InvalidUuid | StoreFailure

datatype failure = Reply nat string | Thrown thrown

subsection \<open>The uuid column \<open>attendance_sessions.id\<close>\<close>

text \<open>
  The id of a session is a \<open>uuid\<close>. The store prints a uuid as 32 lower-case
  hexadecimal digits in groups of 8, 4, 4, 4 and 12, joined by hyphens, and the ids in
  the model are such texts. A query that compares the column with a text that is not a
  uuid is rejected by the store. The store also reads other spellings of a uuid (upper
  case digits, braces, hyphens left out); a route parameter in such a spelling is not
  among the inputs of the model, which takes a parameter that is a uuid to be in the
  printed form.
\<close>

definition hex_digit :: "char \<Rightarrow> bool" where
  "hex_digit ch = (ch \<in> set ''0123456789abcdef'')"

definition uuid_syntax :: "string \<Rightarrow> bool" where
  "uuid_syntax s =
     (length s = 36
      \<and> list_all (\<lambda>i. if i \<in> {8, 13, 18, 23} then s ! i = CHR ''-'' else hex_digit (s ! i))
            [0..<36])"

subsection \<open>The unique index \<open>attendance_records_unique_idx\<close>\<close>

definition record_key :: "attendance_record \<Rightarrow> string \<times> string" where
  "record_key r = (record_sessionId r, record_studentId r)"

definition unique_idx :: "attendance_record list \<Rightarrow> bool" where
  "unique_idx rs = distinct (map record_key rs)"

text \<open>
  One \<open>insert ... values\<close> statement: all rows are stored, or the index rejects the
  statement and nothing is stored.
\<close>

definition insertRecords :: "store \<Rightarrow> attendance_record list \<Rightarrow> thrown + store" where
  "insertRecords st new =
     (if distinct (map record_key new)
         \<and> set (map record_key new) \<inter> set (map record_key (attendanceRecords st)) = {}
      then Inr (st\<lparr>attendanceRecords := attendanceRecords st @ new\<rparr>)
      else Inl UniqueViolation)"

definition recordsOf :: "store \<Rightarrow> string \<Rightarrow> string \<Rightarrow> attendance_record list" where
  "recordsOf st sessionId studentId =
     filter (\<lambda>r. record_sessionId r = sessionId \<and> record_studentId r = studentId)
       (attendanceRecords st)"

section \<open>POST /api/lecturer/sessions/:id/scan\<close>

text \<open>
  The handler calls two built-ins on the scanned text: \<open>JSON.parse\<close> and the date
  parser behind \<open>new Date(string)\<close>. Both are parameters of the model.
  \<open>JSON_parse\<close> is \<open>None\<close> where \<open>JSON.parse\<close> throws; otherwise the parsed value is
  taken to be an object, of which the model keeps the three properties the handler
  destructures. \<open>studentId\<close> is a string; \<open>name\<close> and \<open>timestamp\<close> are a string or
  missing (\<open>undefined\<close>). \<open>Date_parse\<close> gives the time value of a date string, \<open>None\<close>
  for an invalid date.
\<close>

record qr_object =
  qr_studentId :: string
  qr_name :: "string option"
  qr_timestamp :: "string option"

record js_env =
  JSON_parse :: "string \<Rightarrow> qr_object option"
  Date_parse :: "string \<Rightarrow> int option"

text \<open>
  \<open>new Date(v).getTime()\<close>: \<open>NaN\<close> for \<open>undefined\<close> and for an invalid date. A time
  value is a whole number of milliseconds of magnitude at most \<open>8.64e15\<close>, which
  binary64 holds exactly.
\<close>

definition Date_getTime :: "js_env \<Rightarrow> string option \<Rightarrow> jsnum" where
  "Date_getTime env v =
     (case v of
        None \<Rightarrow> NaN
      | Some s \<Rightarrow> (case Date_parse env s of None \<Rightarrow> NaN | Some ms \<Rightarrow> Num (of_int ms)))"

text \<open>
  One call of the handler, past \<open>requireAuth\<close>: the authenticated user, the route
  parameter, the body's \<open>qrData\<close> (\<open>None\<close> when the body has none), and the two clock
  readings the handler makes (\<open>new Date().getTime()\<close> for the window, \<open>new Date()\<close>
  for \<open>scanTime\<close>).
\<close>

record scan_call =
  scan_user :: user
  scan_sessionId :: string
  scan_qrData :: "string option"
  scan_currentTime :: int
  scan_insertTime :: int

definition timeDifference :: "int \<Rightarrow> jsnum \<Rightarrow> jsnum" where
  "timeDifference currentTime qrTime = js_div (js_sub (Num (of_int currentTime)) qrTime) (Num 1000)"

definition outsideWindow :: "jsnum \<Rightarrow> bool" where
  "outsideWindow td = (js_lt td (Num 0) \<or> js_gt td (Num 30))"

text \<open>
  The handler's reads of the store, in its order: the session, its owner, its status,
  the user named by the payload, a record already there. The route parameter goes into
  the session query as it came; when it is not a uuid the query throws. On success the
  \<open>studentId\<close> of the payload and the user row found for it.
\<close>

definition scan_store_checks :: "store \<Rightarrow> scan_call \<Rightarrow> qr_object \<Rightarrow> failure + string \<times> user" where
  "scan_store_checks st c qrDataObject =
     (if \<not> uuid_syntax (scan_sessionId c) then Inl (Thrown InvalidUuid)
      else case find (\<lambda>s. session_id s = scan_sessionId c) (attendanceSessions st) of
        None \<Rightarrow> Inl (Reply 404 ''Session not found.'')
      | Some attendanceSession \<Rightarrow>
        if session_lecturerId attendanceSession \<noteq> user_id (scan_user c)
        then Inl (Reply 403 ''Access denied. You can only scan for your own sessions.'')
        else if session_status attendanceSession \<noteq> Active
        then Inl (Reply 400 ''Session is not active.'')
        else case find (\<lambda>u. user_id u = qr_studentId qrDataObject) (users st) of
          None \<Rightarrow> Inl (Reply 404 ''Student not found.'')
        | Some student \<Rightarrow>
          if recordsOf st (scan_sessionId c) (qr_studentId qrDataObject) \<noteq> []
          then Inl (Reply 400 ''Student already scanned for this session.'')
          else Inr (qr_studentId qrDataObject, student))"

text \<open>
  Everything the handler does before its insert: the role, the body, \<open>JSON.parse\<close>,
  the 30 second window, and then the reads of the store.
\<close>

definition scan_checks :: "js_env \<Rightarrow> store \<Rightarrow> scan_call \<Rightarrow> failure + string \<times> user" where
  "scan_checks env st c =
     (if user_role (scan_user c) \<noteq> ''lecturer''
      then Inl (Reply 403 ''Access denied. Only lecturers can scan QR codes.'')
      else case scan_qrData c of
        None \<Rightarrow> Inl (Reply 400 ''qrData is required.'')
      | Some qrData \<Rightarrow>
        if qrData = [] then Inl (Reply 400 ''qrData is required.'')
        else case JSON_parse env qrData of
          None \<Rightarrow> Inl (Reply 400 ''Invalid QR data format.'')
        | Some qrDataObject \<Rightarrow>
          if outsideWindow
               (timeDifference (scan_currentTime c) (Date_getTime env (qr_timestamp qrDataObject)))
          then Inl (Reply 400 ''QR code is invalid or expired. Must be scanned within 30 seconds.'')
          else scan_store_checks st c qrDataObject)"

text \<open>The \<open>present\<close> row the handler inserts, and the insert with the success value.\<close>

definition presentRecord :: "scan_call \<Rightarrow> string \<Rightarrow> attendance_record" where
  "presentRecord c studentId =
     \<lparr>record_sessionId = scan_sessionId c, record_studentId = studentId,
      record_status = Present, record_scanTime = Some (scan_insertTime c)\<rparr>"

definition scan_insert ::
  "store \<Rightarrow> scan_call \<Rightarrow> string \<times> user \<Rightarrow> (failure + string) \<times> store" where
  "scan_insert st c found =
     (case insertRecords st [presentRecord c (fst found)] of
        Inl e \<Rightarrow> (Inl (Thrown e), st)
      | Inr st' \<Rightarrow> (Inr (user_name (snd found)), st'))"

definition scan :: "js_env \<Rightarrow> store \<Rightarrow> scan_call \<Rightarrow> (failure + string) \<times> store" where
  "scan env st c =
     (case scan_checks env st c of
        Inl e \<Rightarrow> (Inl e, st)
      | Inr found \<Rightarrow> scan_insert st c found)"

text \<open>
  Two calls in flight at once. Every read and the insert is awaited, so the reads of
  a second call can all be answered before the insert of the first is made.
  \<open>scan_race\<close> is that schedule: both calls run their checks on the same store, then
  call \<open>a\<close> inserts, then call \<open>b\<close> inserts.
\<close>

definition scan_race ::
  "js_env \<Rightarrow> store \<Rightarrow> scan_call \<Rightarrow> scan_call
     \<Rightarrow> (failure + string) \<times> (failure + string) \<times> store" where
  "scan_race env st a b =
     (let checked_a = scan_checks env st a;
          checked_b = scan_checks env st b;
          (result_a, st1) =
            (case checked_a of Inl e \<Rightarrow> (Inl e, st) | Inr found \<Rightarrow> scan_insert st a found);
          (result_b, st2) =
            (case checked_b of Inl e \<Rightarrow> (Inl e, st1) | Inr found \<Rightarrow> scan_insert st1 b found)
      in (result_a, result_b, st2))"

section \<open>PUT /api/lecturer/sessions/:id/complete\<close>

text \<open>
  The handler awaits five store operations in turn, with no transaction around them.
  Any of them may reject (connection lost, statement timeout); the outer \<open>catch\<close> logs
  and rethrows, undoing nothing. The parameter \<open>fails\<close> says which operations reject
  in a run.
\<close>

datatype db_op = FindSession | SelectCourseStudents | FindAllStudents | InsertAbsent | UpdateStatus

text \<open>
  The handler's first student query, \<open>courseStudents\<close>: the ids of the users of role
  \<open>student\<close> joined with a record of a session of the course. The handler never reads
  its result.
\<close>

definition courseStudents :: "store \<Rightarrow> string \<Rightarrow> string list" where
  "courseStudents st courseId =
     remdups (concat (map (\<lambda>u. concat (map (\<lambda>r. map (\<lambda>s. user_id u)
         (filter (\<lambda>s. record_sessionId r = session_id s \<and> session_courseId s = courseId)
            (attendanceSessions st)))
         (filter (\<lambda>r. user_id u = record_studentId r) (attendanceRecords st))))
         (filter (\<lambda>u. user_role u = ''student'') (users st))))"

definition absentRecord :: "string \<Rightarrow> user \<Rightarrow> attendance_record" where
  "absentRecord sessionId student =
     \<lparr>record_sessionId = sessionId, record_studentId = user_id student,
      record_status = Absent, record_scanTime = None\<rparr>"

definition updateStatus :: "store \<Rightarrow> string \<Rightarrow> session_status \<Rightarrow> store" where
  "updateStatus st sessionId v =
     st\<lparr>attendanceSessions :=
          map (\<lambda>s. if session_id s = sessionId then s\<lparr>session_status := v\<rparr> else s)
            (attendanceSessions st)\<rparr>"

definition scannedStudentIds :: "store \<Rightarrow> string \<Rightarrow> string set" where
  "scannedStudentIds st sessionId =
     set (map record_studentId
            (filter (\<lambda>r. record_sessionId r = sessionId) (attendanceRecords st)))"

definition unscannedStudents :: "store \<Rightarrow> string \<Rightarrow> user list" where
  "unscannedStudents st sessionId =
     filter (\<lambda>student. user_id student \<notin> scannedStudentIds st sessionId)
       (filter (\<lambda>u. user_role u = ''student'') (users st))"

text \<open>The store once the insert of the absent rows has been made.\<close>

definition backfilled :: "store \<Rightarrow> string \<Rightarrow> store" where
  "backfilled st sessionId =
     st\<lparr>attendanceRecords :=
          attendanceRecords st @ map (absentRecord sessionId) (unscannedStudents st sessionId)\<rparr>"

definition complete ::
  "(db_op \<Rightarrow> bool) \<Rightarrow> store \<Rightarrow> user \<Rightarrow> string \<Rightarrow> (failure + nat) \<times> store" where
  "complete fails st caller sessionId =
     (if user_role caller \<noteq> ''lecturer''
      then (Inl (Reply 403 ''Access denied. Only lecturers can complete sessions.''), st)
      else if fails FindSession then (Inl (Thrown StoreFailure), st)
      else case find (\<lambda>s. session_id s = sessionId) (attendanceSessions st) of
        None \<Rightarrow> (Inl (Reply 404 ''Session not found.''), st)
      | Some attendanceSession \<Rightarrow>
        if session_lecturerId attendanceSession \<noteq> user_id caller
        then (Inl (Reply 403 ''Access denied. You can only complete your own sessions.''), st)
        else if fails SelectCourseStudents then (Inl (Thrown StoreFailure), st)
        else if fails FindAllStudents then (Inl (Thrown StoreFailure), st)
        else
          case (if unscannedStudents st sessionId \<noteq> []
                then (if fails InsertAbsent then Inl StoreFailure
                      else insertRecords st
                             (map (absentRecord sessionId) (unscannedStudents st sessionId)))
                else Inr st) of
            Inl e \<Rightarrow> (Inl (Thrown e), st)
          | Inr st1 \<Rightarrow>
            if fails UpdateStatus then (Inl (Thrown StoreFailure), st1)
            else (Inr (length (unscannedStudents st sessionId)),
                  updateStatus st1 sessionId Completed))"

text \<open>A run in which the store answers every operation.\<close>

definition no_fault :: "db_op \<Rightarrow> bool" where
  "no_fault op = False"

text \<open>A run in which the update of the session's status is the operation that rejects.\<close>

definition update_fault :: "db_op \<Rightarrow> bool" where
  "update_fault op = (op = UpdateStatus)"

section \<open>GET /api/lecturer/statistics\<close>

record statistics_row =
  row_studentId :: string
  row_studentName :: string
  row_status :: attendance_status

text \<open>
  The query: records joined with their session and their user, for the sessions of the
  lecturer, narrowed by \<open>courseId\<close> and \<open>week\<close> when the parameter is given and not
  empty. \<open>week\<close> holds the value of \<open>parseInt(week)\<close>.
\<close>

definition statistics_query ::
  "store \<Rightarrow> string \<Rightarrow> string option \<Rightarrow> int option \<Rightarrow> statistics_row list" where
  "statistics_query st lecturerId courseId week =
     concat (map (\<lambda>r. concat (map (\<lambda>s. map (\<lambda>u.
         \<lparr>row_studentId = record_studentId r, row_studentName = user_name u,
          row_status = record_status r\<rparr>)
         (filter (\<lambda>u. record_studentId r = user_id u) (users st)))
         (filter (\<lambda>s. record_sessionId r = session_id s
                     \<and> session_lecturerId s = lecturerId
                     \<and> (case courseId of None \<Rightarrow> True
                         | Some c \<Rightarrow> if c = [] then True else session_courseId s = c)
                     \<and> (case week of None \<Rightarrow> True | Some w \<Rightarrow> session_week s = w))
            (attendanceSessions st))))
       (attendanceRecords st))"

text \<open>\<open>new Set(xs).size\<close>\<close>

definition Set_size :: "'a list \<Rightarrow> nat" where
  "Set_size xs = length (remdups xs)"

text \<open>
  \<open>Array.from(new Map(entries).values())\<close>: a key keeps the position of its first
  entry and the value of its last.
\<close>

fun Map_set :: "('k \<times> 'v) list \<Rightarrow> 'k \<Rightarrow> 'v \<Rightarrow> ('k \<times> 'v) list" where
  "Map_set [] k v = [(k, v)]"
| "Map_set ((k', v') # m) k v = (if k' = k then (k, v) # m else (k', v') # Map_set m k v)"

definition Map_values :: "('k \<times> 'v) list \<Rightarrow> 'v list" where
  "Map_values entries = map snd (foldl (\<lambda>m (k, v). Map_set m k v) [] entries)"

record statistics =
  totalStudents :: nat
  presentCount :: nat
  absentCount :: nat
  percentage :: jsnum
  presentList :: "(string \<times> string) list"
  absentList :: "(string \<times> string) list"

definition listOf :: "attendance_status \<Rightarrow> statistics_row list \<Rightarrow> (string \<times> string) list" where
  "listOf v records =
     map (\<lambda>r. (row_studentId r, row_studentName r)) (filter (\<lambda>r. row_status r = v) records)"

definition computeStatistics :: "statistics_row list \<Rightarrow> statistics" where
  "computeStatistics records =
     (let presentList = listOf Present records;
          absentList = listOf Absent records;
          totalStudents = Set_size (map fst (presentList @ absentList));
          presentCount = length presentList;
          absentCount = length absentList;
          percentage =
            (if totalStudents > 0
             then Math_round (js_mul (js_div (Num (of_nat presentCount)) (Num (of_nat totalStudents)))
                                (Num 100))
             else Num 0)
      in \<lparr>totalStudents = totalStudents, presentCount = presentCount,
          absentCount = absentCount, percentage = percentage,
          presentList = Map_values (map (\<lambda>p. (fst p, p)) presentList),
          absentList = Map_values (map (\<lambda>a. (fst a, a)) absentList)\<rparr>)"

definition statistics ::
  "store \<Rightarrow> user \<Rightarrow> string option \<Rightarrow> int option \<Rightarrow> failure + statistics" where
  "statistics st caller courseId week =
     (if user_role caller \<noteq> ''lecturer''
      then Inl (Reply 403 ''Access denied. Only lecturers can access this endpoint.'')
      else Inr (computeStatistics (statistics_query st (user_id caller) courseId week)))"

section \<open>Example data\<close>

text \<open>
  A small store and a few calls, used to run the handlers on concrete inputs: one
  lecturer with one active session of course \<open>CS101\<close>, and the students Alice and Bob.
\<close>

definition lecturer1 :: user where
  "lecturer1 = \<lparr>user_id = ''lec1'', user_name = ''Dr Lim'', user_role = ''lecturer''\<rparr>"

definition alice :: user where
  "alice = \<lparr>user_id = ''stu1'', user_name = ''Alice'', user_role = ''student''\<rparr>"

definition bob :: user where
  "bob = \<lparr>user_id = ''stu2'', user_name = ''Bob'', user_role = ''student''\<rparr>"

text \<open>The ids of the sessions of the examples, and the uuid of no session.\<close>

definition sess1 :: string where
  "sess1 = ''5b1c2e0a-7d34-4f6b-9a21-3c8e5d7f0b11''"

definition sess2 :: string where
  "sess2 = ''8f2d9c4e-1a6b-4c3d-b5e7-6a9f0c1d2e33''"

definition sess3 :: string where
  "sess3 = ''c7e4a1b2-3d5f-4a8c-8b6e-9f0a1b2c3d55''"

definition sess9 :: string where
  "sess9 = ''00000000-0000-4000-8000-000000000000''"

definition session1 :: attendance_session where
  "session1 = \<lparr>session_id = sess1, session_courseId = ''CS101'',
     session_lecturerId = ''lec1'', session_week = 3, session_date = ''2024-01-01'',
     session_time = ''09:00:00'', session_status = Active\<rparr>"

definition store1 :: store where
  "store1 = \<lparr>users = [lecturer1, alice, bob], attendanceSessions = [session1],
     attendanceRecords = []\<rparr>"

text \<open>The texts a student's device may show, and a text that is not JSON.\<close>

definition qr_alice :: string where
  \<open>qr_alice = ''{"studentId":"stu1","name":"Alice","timestamp":"2024-01-01T09:00:00.000Z"}''\<close>

definition qr_no_timestamp :: string where
  \<open>qr_no_timestamp = ''{"studentId":"stu1","name":"Alice"}''\<close>

definition qr_no_name :: string where
  \<open>qr_no_name = ''{"studentId":"stu1","timestamp":"2024-01-01T09:00:00.000Z"}''\<close>

definition qr_garbage :: string where
  "qr_garbage = ''not json''"

text \<open>
  The built-ins on these texts: \<open>JSON.parse\<close> throws on \<open>not json\<close>, and the time
  value of \<open>2024-01-01T09:00:00.000Z\<close> is \<open>1704099600000\<close>.
\<close>

definition example_JSON_parse :: "string \<Rightarrow> qr_object option" where
  "example_JSON_parse s =
     (if s = qr_alice
      then Some \<lparr>qr_studentId = ''stu1'', qr_name = Some ''Alice'',
                 qr_timestamp = Some ''2024-01-01T09:00:00.000Z''\<rparr>
      else if s = qr_no_timestamp
      then Some \<lparr>qr_studentId = ''stu1'', qr_name = Some ''Alice'', qr_timestamp = None\<rparr>
      else if s = qr_no_name
      then Some \<lparr>qr_studentId = ''stu1'', qr_name = None,
                 qr_timestamp = Some ''2024-01-01T09:00:00.000Z''\<rparr>
      else None)"

definition example_Date_parse :: "string \<Rightarrow> int option" where
  "example_Date_parse s = (if s = ''2024-01-01T09:00:00.000Z'' then Some 1704099600000 else None)"

definition example_env :: js_env where
  "example_env = \<lparr>JSON_parse = example_JSON_parse, Date_parse = example_Date_parse\<rparr>"

text \<open>
  The lecturer scans \<open>qrData\<close> for session \<open>sessionId\<close>, \<open>age\<close> milliseconds after
  \<open>2024-01-01T09:00:00.000Z\<close>.
\<close>

definition example_call :: "string \<Rightarrow> string \<Rightarrow> int \<Rightarrow> scan_call" where
  "example_call sessionId qrData age =
     \<lparr>scan_user = lecturer1, scan_sessionId = sessionId, scan_qrData = Some qrData,
      scan_currentTime = 1704099600000 + age, scan_insertTime = 1704099600000 + age\<rparr>"

text \<open>The store after Alice has been scanned 10 seconds into the session.\<close>

definition store2 :: store where
  "store2 = store1\<lparr>attendanceRecords :=
     [\<lparr>record_sessionId = sess1, record_studentId = ''stu1'',
       record_status = Present, record_scanTime = Some 1704099610000\<rparr>]\<rparr>"

text \<open>
  A second course, \<open>MA200\<close>, of the same lecturer. Alice has attended \<open>CS101\<close> only,
  Bob has attended \<open>MA200\<close> only.
\<close>

definition session2 :: attendance_session where
  "session2 = \<lparr>session_id = sess2, session_courseId = ''MA200'',
     session_lecturerId = ''lec1'', session_week = 3, session_date = ''2024-01-02'',
     session_time = ''09:00:00'', session_status = Active\<rparr>"

definition store3 :: store where
  "store3 = \<lparr>users = [lecturer1, alice, bob], attendanceSessions = [session1, session2],
     attendanceRecords =
       [\<lparr>record_sessionId = sess1, record_studentId = ''stu1'',
         record_status = Present, record_scanTime = Some 1704099610000\<rparr>,
        \<lparr>record_sessionId = sess2, record_studentId = ''stu2'',
         record_status = Present, record_scanTime = Some 1704186010000\<rparr>]\<rparr>"

text \<open>\<open>store2\<close> after the session has been completed: Bob is absent.\<close>

definition store2_completed :: store where
  "store2_completed = store2\<lparr>
     attendanceSessions := [session1\<lparr>session_status := Completed\<rparr>],
     attendanceRecords :=
       [\<lparr>record_sessionId = sess1, record_studentId = ''stu1'',
         record_status = Present, record_scanTime = Some 1704099610000\<rparr>,
        \<lparr>record_sessionId = sess1, record_studentId = ''stu2'',
         record_status = Absent, record_scanTime = None\<rparr>]\<rparr>"

text \<open>
  A second session of \<open>CS101\<close>, one week later, with Alice present in both sessions.
\<close>

definition session3 :: attendance_session where
  "session3 = \<lparr>session_id = sess3, session_courseId = ''CS101'',
     session_lecturerId = ''lec1'', session_week = 4, session_date = ''2024-01-08'',
     session_time = ''09:00:00'', session_status = Active\<rparr>"

definition store4 :: store where
  "store4 = \<lparr>users = [lecturer1, alice, bob], attendanceSessions = [session1, session3],
     attendanceRecords =
       [\<lparr>record_sessionId = sess1, record_studentId = ''stu1'',
         record_status = Present, record_scanTime = Some 1704099610000\<rparr>,
        \<lparr>record_sessionId = sess3, record_studentId = ''stu1'',
         record_status = Present, record_scanTime = Some 1704704410000\<rparr>]\<rparr>"

text \<open>
  A class of 40 students with distinct ids (\<open>x\<close>, \<open>xx\<close>, \<open>xxx\<close>, ...) in one completed
  session: the first 23 are present, the other 17 absent.
\<close>

definition student_no :: "nat \<Rightarrow> user" where
  "student_no n = \<lparr>user_id = replicate n (CHR ''x''), user_name = ''Student'',
     user_role = ''student''\<rparr>"

definition class40 :: store where
  "class40 = \<lparr>users = lecturer1 # map student_no [1..<41],
     attendanceSessions = [session1\<lparr>session_status := Completed\<rparr>],
     attendanceRecords =
       map (\<lambda>n. \<lparr>record_sessionId = sess1, record_studentId = replicate n (CHR ''x''),
                  record_status = Present, record_scanTime = Some 1704099610000\<rparr>) [1..<24]
       @ map (absentRecord sess1 \<circ> student_no) [24..<41]\<rparr>"

section \<open>Rounding to binary64\<close>

lemma ilog2_ge1: assumes "1 \<le> (x::rat)"
  shows "power_int 2 (ilog2 x) \<le> x \<and> x < power_int 2 (ilog2 x + 1)"
proof -
  let ?n = "\<lfloor>x\<rfloor>"
  have n: "0 < ?n" using assms by simp
  have b: "2 ^ nat (bitlen ?n - 1) \<le> ?n" "?n < 2 ^ nat (bitlen ?n)"
    using bitlen_bounds[OF n] by auto
  have ge1: "1 \<le> bitlen ?n" using n bitlen_nonneg[of ?n] bitlen_eq_zero_iff[of ?n] by linarith
  have e: "ilog2 x = bitlen ?n - 1" using assms by (simp add: ilog2_def)
  have "(2::rat) ^ nat (bitlen ?n - 1) = of_int (2 ^ nat (bitlen ?n - 1))" by simp
  also have "\<dots> \<le> of_int ?n" using b(1) by (simp only: of_int_le_iff)
  also have "\<dots> \<le> x" by simp
  finally have lo: "(2::rat) ^ nat (bitlen ?n - 1) \<le> x" .
  have "?n + 1 \<le> 2 ^ nat (bitlen ?n)" using b(2) by simp
  then have "(of_int (?n + 1) :: rat) \<le> of_int (2 ^ nat (bitlen ?n))" by (simp only: of_int_le_iff)
  moreover have "x < of_int (?n + 1)" by linarith
  ultimately have hi: "x < (2::rat) ^ nat (bitlen ?n)" by simp
  show ?thesis using lo hi ge1 by (simp add: e power_int_def)
qed

lemma ilog2_lt1: assumes "0 < (x::rat)" "x < 1"
  shows "power_int 2 (ilog2 x) \<le> x \<and> x < power_int 2 (ilog2 x + 1)"
proof -
  define y where "y = 1 / x"
  define n where "n = \<lceil>y\<rceil> - 1"
  define b where "b = bitlen n"
  have y1: "1 < y" using assms by (simp add: y_def)
  have n: "0 < n" using y1 by (simp add: n_def less_ceiling_iff)
  have ny: "of_int n < y" "y \<le> of_int n + 1" unfolding n_def by linarith+
  have bb: "2 ^ nat (b - 1) \<le> n" "n < 2 ^ nat b"
    using bitlen_bounds[OF n] by (auto simp: b_def)
  have ge1: "1 \<le> b" using n bitlen_nonneg[of n] bitlen_eq_zero_iff[of n] unfolding b_def by linarith
  have e: "ilog2 x = - b" using assms by (simp add: ilog2_def b_def n_def y_def)
  have "(of_int (2 ^ nat (b - 1)) :: rat) \<le> of_int n" using bb(1) by (simp only: of_int_le_iff)
  then have l1: "(2::rat) ^ nat (b - 1) \<le> of_int n" by simp
  have lo: "(2::rat) ^ nat (b - 1) < y" using l1 ny(1) by linarith
  have "n + 1 \<le> 2 ^ nat b" using bb(2) by simp
  then have "(of_int (n + 1) :: rat) \<le> of_int (2 ^ nat b)" by (simp only: of_int_le_iff)
  then have h1: "(of_int n :: rat) + 1 \<le> 2 ^ nat b" by simp
  have hi: "y \<le> (2::rat) ^ nat b" using h1 ny(2) by linarith
  have xy: "x = 1 / y" by (simp add: y_def)
  have y0: "0 < y" using y1 by simp
  have A: "1 / 2 ^ nat b \<le> x"
    unfolding xy using hi y0 by (simp add: frac_le)
  have B: "x < 1 / 2 ^ nat (b - 1)"
    unfolding xy using lo y0 by (simp add: frac_less2)
  have C: "power_int (2::rat) (- b) = 1 / 2 ^ nat b"
    using ge1 by (simp add: power_int_def field_simps)
  have D: "power_int (2::rat) (- b + 1) = 1 / 2 ^ nat (b - 1)"
  proof -
    have "- b + 1 = - (b - 1)" by simp
    then have "power_int (2::rat) (- b + 1) = power_int 2 (- (b - 1))" by simp
    also have "\<dots> = 1 / power_int 2 (b - 1)" by (rule power_int_minus_divide)
    also have "\<dots> = 1 / 2 ^ nat (b - 1)" using ge1 by (simp add: power_int_def)
    finally show ?thesis .
  qed
  show ?thesis unfolding e C D using A B by simp
qed

lemma ilog2_bounds: "0 < (x::rat) \<Longrightarrow> power_int 2 (ilog2 x) \<le> x \<and> x < power_int 2 (ilog2 x + 1)"
  using ilog2_ge1[of x] ilog2_lt1[of x] by (cases "1 \<le> x") auto


lemma ilog2_mono: assumes "0 < (x::rat)" "x \<le> y" shows "ilog2 x \<le> ilog2 y"
proof (rule ccontr)
  assume "\<not> ilog2 x \<le> ilog2 y"
  then have "ilog2 y + 1 \<le> ilog2 x" by simp
  then have "power_int (2::rat) (ilog2 y + 1) \<le> power_int 2 (ilog2 x)"
    by (rule power_int_increasing) simp
  moreover have "power_int 2 (ilog2 x) \<le> x" using ilog2_bounds[OF assms(1)] by simp
  moreover have "y < power_int 2 (ilog2 y + 1)" using ilog2_bounds[of y] assms by simp
  ultimately show False using assms(2) by linarith
qed

lemma round_ties_even_of_int: "round_ties_even (of_int n) = n"
  by (simp add: round_ties_even_def)

lemma round_ties_even_lower: "\<lfloor>x\<rfloor> \<le> round_ties_even x"
  by (simp add: round_ties_even_def Let_def)

lemma round_ties_even_upper: "round_ties_even x \<le> \<lfloor>x\<rfloor> + 1"
  by (simp add: round_ties_even_def Let_def)

lemma round_ties_even_mono: assumes "x \<le> y" shows "round_ties_even x \<le> round_ties_even y"
proof (cases "\<lfloor>x\<rfloor> = \<lfloor>y\<rfloor>")
  case True
  have "x - of_int \<lfloor>x\<rfloor> \<le> y - of_int \<lfloor>x\<rfloor>" using assms by simp
  then show ?thesis using True
    by (auto simp: round_ties_even_def Let_def)
next
  case False
  have "\<lfloor>x\<rfloor> \<le> \<lfloor>y\<rfloor>" using assms by (rule floor_mono)
  then have "\<lfloor>x\<rfloor> + 1 \<le> \<lfloor>y\<rfloor>" using False by simp
  then show ?thesis
    using round_ties_even_upper[of x] round_ties_even_lower[of y] by linarith
qed

lemma ulp64_pos: "0 < ulp64 x"
  by (simp add: ulp64_def)

lemma ulp64_scale: "power_int 2 k * ulp64 x = power_int 2 (k + ilog2 \<bar>x\<bar> - 52)"
proof -
  have "power_int (2::rat) (k + (ilog2 \<bar>x\<bar> - 52)) = power_int 2 k * power_int 2 (ilog2 \<bar>x\<bar> - 52)"
    by (rule power_int_add) simp
  then show ?thesis by (simp add: ulp64_def add_diff_eq)
qed

lemma fl64_pos_range: assumes "0 < x"
  shows "power_int 2 (ilog2 x) \<le> fl64 x \<and> fl64 x \<le> power_int 2 (ilog2 x + 1)"
proof -
  define u where "u = ulp64 x"
  have u0: "0 < u" by (simp add: u_def ulp64_pos)
  have ax: "\<bar>x\<bar> = x" using assms by simp
  have e52: "52 + ilog2 x - 52 = ilog2 x" and e53: "53 + ilog2 x - 52 = ilog2 x + 1" by simp_all
  have s52: "2 ^ 52 * u = power_int 2 (ilog2 x)"
    using ulp64_scale[of 52 x] unfolding ax e52 by (simp add: u_def)
  have s53: "2 ^ 53 * u = power_int 2 (ilog2 x + 1)"
    using ulp64_scale[of 53 x] unfolding ax e53 by (simp add: u_def)
  have b: "power_int 2 (ilog2 x) \<le> x" "x < power_int 2 (ilog2 x + 1)"
    using ilog2_bounds[OF assms] by simp_all
  have lo: "2 ^ 52 \<le> x / u" using b(1) u0 s52 by (simp add: pos_le_divide_eq)
  have hi: "x / u \<le> 2 ^ 53" using b(2) u0 s53 by (simp add: pos_divide_le_eq)
  have "round_ties_even (of_int (2 ^ 52)) \<le> round_ties_even (x / u)"
    by (rule round_ties_even_mono) (use lo in simp)
  then have r1: "2 ^ 52 \<le> round_ties_even (x / u)" by (simp only: round_ties_even_of_int)
  have "round_ties_even (x / u) \<le> round_ties_even (of_int (2 ^ 53))"
    by (rule round_ties_even_mono) (use hi in simp)
  then have r2: "round_ties_even (x / u) \<le> 2 ^ 53" by (simp only: round_ties_even_of_int)
  have q1: "(2::rat) ^ 52 \<le> of_int (round_ties_even (x / u))"
    using r1 by (metis of_int_le_iff of_int_numeral of_int_power)
  have q2: "of_int (round_ties_even (x / u)) \<le> (2::rat) ^ 53"
    using r2 by (metis of_int_le_iff of_int_numeral of_int_power)
  have f: "fl64 x = of_int (round_ties_even (x / u)) * u"
    using assms by (simp add: fl64_def u_def)
  have "2 ^ 52 * u \<le> of_int (round_ties_even (x / u)) * u"
    using q1 u0 by (simp only: mult_le_cancel_right_pos)
  moreover have "of_int (round_ties_even (x / u)) * u \<le> 2 ^ 53 * u"
    using q2 u0 by (simp only: mult_le_cancel_right_pos)
  ultimately show ?thesis unfolding f s52[symmetric] s53[symmetric] by simp
qed


lemma round_ties_even_minus: "round_ties_even (- x) = - round_ties_even x"
proof (cases "x = of_int \<lfloor>x\<rfloor>")
  case True
  then obtain n where "x = of_int n" ..
  then have "- x = of_int (- n)" by simp
  then show ?thesis using \<open>x = of_int n\<close> by (simp only: round_ties_even_of_int)
next
  case False
  define f where "f = \<lfloor>x\<rfloor>"
  define d where "d = x - of_int f"
  have d: "0 < d" "d < 1" using False unfolding d_def f_def by linarith+
  have fm: "\<lfloor>- x\<rfloor> = - f - 1" using False by (simp add: floor_minus ceiling_altdef f_def)
  have dm: "- x - of_int (- f - 1) = 1 - d" by (simp add: d_def)
  have A: "round_ties_even x = (if d < 1 / 2 then f else if 1 / 2 < d then f + 1
      else if even f then f else f + 1)"
    by (simp add: round_ties_even_def Let_def f_def d_def)
  have B: "round_ties_even (- x) = (if 1 - d < 1 / 2 then - f - 1 else if 1 / 2 < 1 - d then - f
      else if even (- f - 1) then - f - 1 else - f)"
    unfolding round_ties_even_def Let_def fm dm by simp
  show ?thesis unfolding A B using d by auto
qed

lemma fl64_minus: "fl64 (- x) = - fl64 x"
  by (simp add: fl64_def ulp64_def round_ties_even_minus)

lemma fl64_zero: "fl64 0 = 0"
  by (simp add: fl64_def)

lemma fl64_pos: "0 < x \<Longrightarrow> 0 < fl64 x"
proof -
  assume "0 < x"
  then have "power_int 2 (ilog2 x) \<le> fl64 x" using fl64_pos_range by simp
  moreover have "0 < power_int (2::rat) (ilog2 x)" by simp
  ultimately show ?thesis by linarith
qed

lemma fl64_mono_pos: assumes "0 < x" "x \<le> y" shows "fl64 x \<le> fl64 y"
proof (cases "ilog2 x = ilog2 y")
  case True
  have y: "0 < y" using assms by simp
  have u: "ulp64 x = ulp64 y" using True assms y by (simp add: ulp64_def)
  have "x / ulp64 y \<le> y / ulp64 y" using assms(2) ulp64_pos[of y] by (simp add: divide_right_mono)
  then have "round_ties_even (x / ulp64 y) \<le> round_ties_even (y / ulp64 y)"
    by (rule round_ties_even_mono)
  then have "(of_int (round_ties_even (x / ulp64 y)) :: rat) \<le> of_int (round_ties_even (y / ulp64 y))"
    by (simp only: of_int_le_iff)
  then have "of_int (round_ties_even (x / ulp64 y)) * ulp64 y \<le> of_int (round_ties_even (y / ulp64 y)) * ulp64 y"
    using ulp64_pos[of y] by (simp only: mult_le_cancel_right_pos)
  then show ?thesis using assms y by (simp add: fl64_def u)
next
  case False
  have y: "0 < y" using assms by simp
  have "ilog2 x \<le> ilog2 y" using assms by (rule ilog2_mono)
  then have "ilog2 x + 1 \<le> ilog2 y" using False by simp
  then have "power_int (2::rat) (ilog2 x + 1) \<le> power_int 2 (ilog2 y)"
    by (rule power_int_increasing) simp
  then show ?thesis using fl64_pos_range[OF assms(1)] fl64_pos_range[OF y] by linarith
qed

lemma fl64_mono: assumes "x \<le> y" shows "fl64 x \<le> fl64 y"
proof -
  consider "0 < x" | "x = 0" | "x < 0" "0 \<le> y" | "x < 0" "y < 0" by linarith
  then show ?thesis
  proof cases
    case 1
    then show ?thesis using assms by (rule fl64_mono_pos)
  next
    case 2
    then show ?thesis using assms fl64_pos[of y] by (cases "y = 0") (auto simp: fl64_zero)
  next
    case 3
    have "0 < fl64 (- x)" using 3(1) by (simp add: fl64_pos)
    then have "fl64 x < 0" by (simp add: fl64_minus)
    moreover have "0 \<le> fl64 y" using 3(2) fl64_pos[of y] by (cases "y = 0") (auto simp: fl64_zero)
    ultimately show ?thesis by simp
  next
    case 4
    have "fl64 (- y) \<le> fl64 (- x)" using 4 assms by (intro fl64_mono_pos) simp_all
    then show ?thesis by (simp add: fl64_minus)
  qed
qed

lemma fl64_neg_iff: "fl64 x < 0 \<longleftrightarrow> x < 0"
proof
  assume "fl64 x < 0"
  show "x < 0"
  proof (rule ccontr)
    assume "\<not> x < 0"
    then have "fl64 0 \<le> fl64 x" by (intro fl64_mono) simp
    then show False using \<open>fl64 x < 0\<close> by (simp add: fl64_zero)
  qed
next
  assume "x < 0"
  then have "0 < fl64 (- x)" by (simp add: fl64_pos)
  then show "fl64 x < 0" by (simp add: fl64_minus)
qed

lemma fl64_30000: "fl64 30000 = 30000" by code_simp
lemma fl64_30001: "fl64 30001 = 30001" by code_simp
lemma fl64_30: "fl64 30 = 30" by code_simp
lemma fl64_30_001: "30 < fl64 (30001 / 1000)" by code_simp

text \<open>The error of one rounding, and of the quotient and product behind a percentage.\<close>

lemma round_ties_even_error: "\<bar>of_int (round_ties_even x) - x\<bar> \<le> 1 / 2"
proof -
  define f where "f = \<lfloor>x\<rfloor>"
  define d where "d = x - of_int f"
  have d: "0 \<le> d" "d < 1" unfolding d_def f_def by linarith+
  have A: "round_ties_even x = (if d < 1 / 2 then f else if 1 / 2 < d then f + 1
      else if even f then f else f + 1)"
    by (simp add: round_ties_even_def Let_def f_def d_def)
  have B: "of_int f - x = - d" "of_int (f + 1) - x = 1 - d" by (simp_all add: d_def)
  consider "round_ties_even x = f" "d \<le> 1 / 2" | "round_ties_even x = f + 1" "1 / 2 \<le> d"
    unfolding A by (cases "d < 1 / 2"; cases "1 / 2 < d"; cases "even f") auto
  then show ?thesis
  proof cases
    case 1
    then show ?thesis unfolding 1(1) B(1) using d by simp
  next
    case 2
    then show ?thesis unfolding 2(1) B(2) using d by simp
  qed
qed

lemma fl64_error: "\<bar>fl64 x - x\<bar> \<le> ulp64 x / 2"
proof (cases "x = 0")
  case True
  then show ?thesis using ulp64_pos[of x] by (simp add: fl64_def)
next
  case False
  define u where "u = ulp64 x"
  have u0: "0 < u" by (simp add: u_def ulp64_pos)
  have "fl64 x - x = (of_int (round_ties_even (x / u)) - x / u) * u"
    using False u0 by (simp add: fl64_def u_def field_simps)
  then have "\<bar>fl64 x - x\<bar> = \<bar>of_int (round_ties_even (x / u)) - x / u\<bar> * u"
    using u0 by (simp add: abs_mult)
  also have "\<dots> \<le> (1 / 2) * u"
    using round_ties_even_error[of "x / u"] u0 by (simp only: mult_le_cancel_right_pos)
  finally show ?thesis by (simp add: u_def)
qed

lemma ulp64_rel: assumes "x \<noteq> 0" shows "ulp64 x \<le> \<bar>x\<bar> / 2 ^ 52"
proof -
  have p: "0 < \<bar>x\<bar>" using assms by simp
  have "power_int 2 (ilog2 \<bar>x\<bar>) \<le> \<bar>x\<bar>" using ilog2_bounds[OF p] by simp
  moreover have "power_int (2::rat) (ilog2 \<bar>x\<bar>) = power_int 2 52 * ulp64 x"
    using ulp64_scale[of 52 x] by simp
  ultimately have "2 ^ 52 * ulp64 x \<le> \<bar>x\<bar>" by simp
  then show ?thesis by (simp add: pos_le_divide_eq mult.commute)
qed

lemma fl64_rel_error: "\<bar>fl64 x - x\<bar> \<le> \<bar>x\<bar> / 2 ^ 53"
proof (cases "x = 0")
  case True
  then show ?thesis by (simp add: fl64_def)
next
  case False
  have "\<bar>fl64 x - x\<bar> \<le> ulp64 x / 2" by (rule fl64_error)
  also have "\<dots> \<le> (\<bar>x\<bar> / 2 ^ 52) / 2" using ulp64_rel[OF False] by simp
  finally show ?thesis by simp
qed

lemma percent_close:
  assumes "0 \<le> q" "q \<le> 2 ^ 40"
  shows "\<bar>fl64 (fl64 q * 100) - 100 * q\<bar> < 1 / 2"
proof -
  define q1 where "q1 = fl64 q"
  define y1 where "y1 = fl64 (q1 * 100)"
  have e1: "\<bar>q1 - q\<bar> \<le> q / 2 ^ 53" using fl64_rel_error[of q] assms(1) by (simp add: q1_def)
  have e2: "\<bar>y1 - q1 * 100\<bar> \<le> \<bar>q1 * 100\<bar> / 2 ^ 53"
    unfolding y1_def by (rule fl64_rel_error)
  have "q / 2 ^ 53 \<le> q" using assms(1) by (simp add: field_simps)
  then have q1b: "\<bar>q1\<bar> \<le> 2 * q" using e1 assms(1) by linarith
  have "\<bar>q1 * 100\<bar> = 100 * \<bar>q1\<bar>" by (simp add: abs_mult)
  then have e2': "\<bar>y1 - q1 * 100\<bar> \<le> 200 * q / 2 ^ 53" using e2 q1b by simp
  have "y1 - 100 * q = (y1 - q1 * 100) + 100 * (q1 - q)" by simp
  then have "\<bar>y1 - 100 * q\<bar> \<le> \<bar>y1 - q1 * 100\<bar> + \<bar>100 * (q1 - q)\<bar>"
    by (simp only: abs_triangle_ineq)
  also have "\<bar>100 * (q1 - q)\<bar> = 100 * \<bar>q1 - q\<bar>" by (simp only: abs_mult abs_numeral)
  finally have "\<bar>y1 - 100 * q\<bar> \<le> \<bar>y1 - q1 * 100\<bar> + 100 * \<bar>q1 - q\<bar>" .
  also have "\<bar>y1 - q1 * 100\<bar> + 100 * \<bar>q1 - q\<bar> \<le> 200 * q / 2 ^ 53 + 100 * (q / 2 ^ 53)"
    using e1 e2' by simp
  also have "\<dots> = 300 * q / 2 ^ 53" by simp
  also have "\<dots> \<le> 300 * 2 ^ 40 / 2 ^ 53" using assms(2) by (simp add: divide_right_mono)
  also have "\<dots> < 1 / 2" by simp
  finally show ?thesis by (simp add: y1_def q1_def)
qed

lemma round_close: assumes "\<bar>a - b\<bar> < (1::rat)" shows "\<bar>\<lfloor>a + 1 / 2\<rfloor> - round b\<bar> \<le> 1"
proof -
  have "a + 1 / 2 \<le> (b + 1 / 2) + 1" "b + 1 / 2 \<le> (a + 1 / 2) + 1" using assms by linarith+
  then have "\<lfloor>a + 1 / 2\<rfloor> \<le> \<lfloor>(b + 1 / 2) + 1\<rfloor>" "\<lfloor>b + 1 / 2\<rfloor> \<le> \<lfloor>(a + 1 / 2) + 1\<rfloor>"
    by (simp_all only: floor_mono)
  moreover have "\<lfloor>(b + 1 / 2) + 1\<rfloor> = \<lfloor>b + 1 / 2\<rfloor> + 1" "\<lfloor>(a + 1 / 2) + 1\<rfloor> = \<lfloor>a + 1 / 2\<rfloor> + 1"
    by linarith+
  ultimately show ?thesis unfolding round_def by linarith
qed

section \<open>The freshness window\<close>

text \<open>
  The handler divides the rounded difference of the two time values by \<open>1000\<close> and
  compares the rounded quotient with \<open>0\<close> and \<open>30\<close>. Rounding is monotone and keeps
  \<open>30000\<close>, \<open>30001\<close> and \<open>30\<close>, so the test decides exactly whether the difference in
  milliseconds lies in \<open>0 .. 30000\<close>.
\<close>

lemma timeDifference_Num:
  "timeDifference currentTime (Num q) = Num (fl64 (fl64 (of_int currentTime - q) / 1000))"
  by (simp add: timeDifference_def)

lemma timeDifference_NaN: "timeDifference currentTime NaN = NaN"
  by (simp add: timeDifference_def)

lemma window_lower: "fl64 (fl64 (of_int d) / 1000) < 0 \<longleftrightarrow> d < 0"
proof -
  have "fl64 (fl64 (of_int d) / 1000) < 0 \<longleftrightarrow> fl64 (of_int d) / 1000 < 0" by (rule fl64_neg_iff)
  also have "\<dots> \<longleftrightarrow> fl64 (of_int d) < 0" by simp
  also have "\<dots> \<longleftrightarrow> (of_int d :: rat) < 0" by (rule fl64_neg_iff)
  finally show ?thesis by simp
qed

lemma window_upper: "30 < fl64 (fl64 (of_int d) / 1000) \<longleftrightarrow> 30000 < d"
proof
  assume a: "30000 < d"
  then have "(30001 :: rat) \<le> of_int d" by linarith
  then have "fl64 30001 \<le> fl64 (of_int d)" by (rule fl64_mono)
  then have "30001 / 1000 \<le> fl64 (of_int d) / 1000" by (simp add: fl64_30001)
  then have "fl64 (30001 / 1000) \<le> fl64 (fl64 (of_int d) / 1000)" by (rule fl64_mono)
  then show "30 < fl64 (fl64 (of_int d) / 1000)" using fl64_30_001 by linarith
next
  assume a: "30 < fl64 (fl64 (of_int d) / 1000)"
  show "30000 < d"
  proof (rule ccontr)
    assume "\<not> 30000 < d"
    then have "(of_int d :: rat) \<le> 30000" by linarith
    then have "fl64 (of_int d) \<le> fl64 30000" by (rule fl64_mono)
    then have "fl64 (of_int d) / 1000 \<le> 30" by (simp add: fl64_30000)
    then have "fl64 (fl64 (of_int d) / 1000) \<le> fl64 30" by (rule fl64_mono)
    then show False using a by (simp add: fl64_30)
  qed
qed

lemma outsideWindow_iff:
  "outsideWindow (timeDifference currentTime (Num (of_int qrTime)))
     \<longleftrightarrow> currentTime < qrTime \<or> 30000 < currentTime - qrTime"
proof -
  have "of_int currentTime - (of_int qrTime :: rat) = of_int (currentTime - qrTime)" by simp
  then show ?thesis
    unfolding outsideWindow_def timeDifference_Num
    using window_lower[of "currentTime - qrTime"] window_upper[of "currentTime - qrTime"]
    by simp
qed

lemma outsideWindow_NaN: "\<not> outsideWindow (timeDifference currentTime NaN)"
  by (simp add: outsideWindow_def timeDifference_NaN)

section \<open>Scanning: the order of the checks and the window\<close>

lemma scan_checks_parsed:
  assumes "user_role (scan_user c) = ''lecturer''" "scan_qrData c = Some q" "q \<noteq> []"
    "JSON_parse env q = Some obj"
  shows "scan_checks env st c =
     (if outsideWindow (timeDifference (scan_currentTime c) (Date_getTime env (qr_timestamp obj)))
      then Inl (Reply 400 ''QR code is invalid or expired. Must be scanned within 30 seconds.'')
      else scan_store_checks st c obj)"
  using assms by (simp add: scan_checks_def)

lemma Date_getTime_Some:
  "Date_parse env ts = Some qrTime \<Longrightarrow> Date_getTime env (Some ts) = Num (of_int qrTime)"
  by (simp add: Date_getTime_def)

lemma Date_getTime_None: "Date_getTime env None = NaN"
  by (simp add: Date_getTime_def)

lemma scan_store_checks_not_expired:
  "scan_store_checks st c obj \<noteq>
     Inl (Reply 400 ''QR code is invalid or expired. Must be scanned within 30 seconds.'')"
  by (simp add: scan_store_checks_def split: option.splits)

lemma scan_window_parsed:
  assumes "qr_timestamp obj = Some ts" "Date_parse env ts = Some qrTime"
  shows "outsideWindow (timeDifference currentTime (Date_getTime env (qr_timestamp obj)))
     \<longleftrightarrow> currentTime < qrTime \<or> 30000 < currentTime - qrTime"
  using assms by (simp only: Date_getTime_Some outsideWindow_iff)

lemma example_lecturer: "user_role (scan_user (example_call sid q age)) = ''lecturer''"
  by (simp add: example_call_def lecturer1_def)

lemma example_qrData: "scan_qrData (example_call sid q age) = Some q"
  by (simp add: example_call_def)

lemma example_parse_alice:
  "JSON_parse example_env qr_alice =
     Some \<lparr>qr_studentId = ''stu1'', qr_name = Some ''Alice'',
           qr_timestamp = Some ''2024-01-01T09:00:00.000Z''\<rparr>"
  by (simp add: example_env_def example_JSON_parse_def)

lemma example_parse_no_timestamp:
  "JSON_parse example_env qr_no_timestamp =
     Some \<lparr>qr_studentId = ''stu1'', qr_name = Some ''Alice'', qr_timestamp = None\<rparr>"
  by (simp add: example_env_def example_JSON_parse_def qr_no_timestamp_def qr_alice_def)

lemma example_date:
  "Date_parse example_env ''2024-01-01T09:00:00.000Z'' = Some 1704099600000"
  by (simp add: example_env_def example_Date_parse_def)

lemma example_uuids:
  "uuid_syntax sess1" "uuid_syntax sess2" "uuid_syntax sess3" "uuid_syntax sess9"
  "\<not> uuid_syntax ''nosuch''"
  by code_simp+

lemma example_sessionId: "scan_sessionId (example_call sid q age) = sid"
  by (simp add: example_call_def)

lemma example_store1_session:
  "find (\<lambda>s. session_id s = sess1) (attendanceSessions store1) = Some session1"
  "find (\<lambda>s. session_id s = sess9) (attendanceSessions store1) = None"
  by (simp_all add: store1_def session1_def sess1_def sess9_def)

lemma example_store_checks_alice:
  "scan_store_checks store1 (example_call sess1 q age)
     \<lparr>qr_studentId = ''stu1'', qr_name = n, qr_timestamp = ts\<rparr> = Inr (''stu1'', alice)"
  by (simp add: scan_store_checks_def example_sessionId example_uuids example_store1_session)
     (simp add: example_call_def store1_def session1_def lecturer1_def alice_def bob_def
        recordsOf_def)

lemma example_insert_alice:
  "scan_insert store1 (example_call sess1 q age) (''stu1'', alice) =
     (Inr ''Alice'',
      store1\<lparr>attendanceRecords :=
        [\<lparr>record_sessionId = sess1, record_studentId = ''stu1'',
          record_status = Present, record_scanTime = Some (1704099600000 + age)\<rparr>]\<rparr>)"
  by (simp add: scan_insert_def presentRecord_def insertRecords_def example_call_def
      store1_def alice_def)

lemma qr_alice_nonempty: "qr_alice \<noteq> []"
  by (simp add: qr_alice_def)

lemma qr_no_timestamp_nonempty: "qr_no_timestamp \<noteq> []"
  by (simp add: qr_no_timestamp_def)

text \<open>
  C7. For a payload that parses and whose timestamp is a valid date, the window test of
  the handler passes exactly when the age \<open>currentTime - qrTime\<close> lies in
  \<open>0 .. 30000\<close> milliseconds, both ends included. When it passes, the handler goes on
  to its store checks and, if they pass too, to the insert: the payload is accepted.
  When it fails (a negative age, or an age above 30 seconds) the call ends with the
  window error and the store as it was; no other path gives that reply.
\<close>

theorem scan_window_inclusive:
  assumes "user_role (scan_user c) = ''lecturer''" "scan_qrData c = Some q" "q \<noteq> []"
    "JSON_parse env q = Some obj" "qr_timestamp obj = Some ts" "Date_parse env ts = Some qrTime"
  shows "(\<not> outsideWindow (timeDifference (scan_currentTime c) (Date_getTime env (qr_timestamp obj)))
           \<longleftrightarrow> 0 \<le> scan_currentTime c - qrTime \<and> scan_currentTime c - qrTime \<le> 30000)
       \<and> (0 \<le> scan_currentTime c - qrTime \<and> scan_currentTime c - qrTime \<le> 30000 \<longrightarrow>
            scan_checks env st c = scan_store_checks st c obj
          \<and> scan env st c =
              (case scan_store_checks st c obj of
                 Inl e \<Rightarrow> (Inl e, st)
               | Inr found \<Rightarrow> scan_insert st c found))
       \<and> (\<not> (0 \<le> scan_currentTime c - qrTime \<and> scan_currentTime c - qrTime \<le> 30000) \<longrightarrow>
            scan_checks env st c = Inl (Reply 400 ''QR code is invalid or expired. Must be scanned within 30 seconds.'')
          \<and> scan env st c = (Inl (Reply 400 ''QR code is invalid or expired. Must be scanned within 30 seconds.''), st))
       \<and> (scan_checks env st c = Inl (Reply 400 ''QR code is invalid or expired. Must be scanned within 30 seconds.'')
           \<longleftrightarrow> \<not> (0 \<le> scan_currentTime c - qrTime \<and> scan_currentTime c - qrTime \<le> 30000))"
proof -
  have w: "outsideWindow (timeDifference (scan_currentTime c) (Date_getTime env (qr_timestamp obj)))
     \<longleftrightarrow> scan_currentTime c < qrTime \<or> 30000 < scan_currentTime c - qrTime"
    using assms(5,6) by (rule scan_window_parsed)
  have p: "scan_checks env st c =
     (if scan_currentTime c < qrTime \<or> 30000 < scan_currentTime c - qrTime
      then Inl (Reply 400 ''QR code is invalid or expired. Must be scanned within 30 seconds.'')
      else scan_store_checks st c obj)"
    unfolding scan_checks_parsed[OF assms(1-4)] w ..
  have a: "(\<not> outsideWindow (timeDifference (scan_currentTime c) (Date_getTime env (qr_timestamp obj)))
           \<longleftrightarrow> 0 \<le> scan_currentTime c - qrTime \<and> scan_currentTime c - qrTime \<le> 30000)"
    unfolding w by auto
  have b: "scan_checks env st c = scan_store_checks st c obj
      \<and> scan env st c = (case scan_store_checks st c obj of
                 Inl e \<Rightarrow> (Inl e, st) | Inr found \<Rightarrow> scan_insert st c found)"
    if "0 \<le> scan_currentTime c - qrTime \<and> scan_currentTime c - qrTime \<le> 30000"
    using that by (simp add: scan_def p)
  have c: "scan_checks env st c = Inl (Reply 400 ''QR code is invalid or expired. Must be scanned within 30 seconds.'')
      \<and> scan env st c = (Inl (Reply 400 ''QR code is invalid or expired. Must be scanned within 30 seconds.''), st)"
    if "\<not> (0 \<le> scan_currentTime c - qrTime \<and> scan_currentTime c - qrTime \<le> 30000)"
    using that by (auto simp: scan_def p)
  have d: "scan_checks env st c = Inl (Reply 400 ''QR code is invalid or expired. Must be scanned within 30 seconds.'')
           \<longleftrightarrow> \<not> (0 \<le> scan_currentTime c - qrTime \<and> scan_currentTime c - qrTime \<le> 30000)"
    unfolding p using scan_store_checks_not_expired[of st c obj] by auto
  show ?thesis using a b c d by blast
qed

text \<open>
  The boundary: Alice's code scanned exactly 30 seconds after it was issued is
  accepted and she is marked present; one millisecond later it is refused.
\<close>

theorem scan_window_inclusive_witness:
  "user_role (scan_user (example_call sess1 qr_alice 30000)) = ''lecturer''
   \<and> scan_qrData (example_call sess1 qr_alice 30000) = Some qr_alice
   \<and> qr_alice \<noteq> []
   \<and> Date_parse example_env ''2024-01-01T09:00:00.000Z'' = Some 1704099600000
   \<and> scan_currentTime (example_call sess1 qr_alice 30000) - 1704099600000 = 30000
   \<and> scan_checks example_env store1 (example_call sess1 qr_alice 30000) = Inr (''stu1'', alice)
   \<and> scan example_env store1 (example_call sess1 qr_alice 30000) =
       (Inr ''Alice'',
        store1\<lparr>attendanceRecords :=
          [\<lparr>record_sessionId = sess1, record_studentId = ''stu1'',
            record_status = Present, record_scanTime = Some 1704099630000\<rparr>]\<rparr>)
   \<and> scan_currentTime (example_call sess1 qr_alice 30001) - 1704099600000 = 30001
   \<and> scan example_env store1 (example_call sess1 qr_alice 30001) =
       (Inl (Reply 400 ''QR code is invalid or expired. Must be scanned within 30 seconds.''), store1)"
proof -
  have ts: "qr_timestamp \<lparr>qr_studentId = ''stu1'', qr_name = Some ''Alice'',
      qr_timestamp = Some ''2024-01-01T09:00:00.000Z''\<rparr> = Some ''2024-01-01T09:00:00.000Z''"
    by simp
  have age: "scan_currentTime (example_call sess1 qr_alice 30000) - 1704099600000 = 30000"
    "scan_currentTime (example_call sess1 qr_alice 30001) - 1704099600000 = 30001"
    by (simp_all add: example_call_def)
  have late: "scan example_env store1 (example_call sess1 qr_alice 30001) =
       (Inl (Reply 400 ''QR code is invalid or expired. Must be scanned within 30 seconds.''), store1)"
    using scan_window_inclusive[OF example_lecturer[of sess1 qr_alice 30001]
        example_qrData[of sess1 qr_alice 30001] qr_alice_nonempty
        example_parse_alice ts example_date, where st = store1]
      age(2)
    by simp
  show ?thesis
    using scan_window_inclusive[OF example_lecturer[of sess1 qr_alice 30000]
        example_qrData[of sess1 qr_alice 30000] qr_alice_nonempty
        example_parse_alice ts example_date, where st = store1]
      example_lecturer[of sess1 qr_alice 30000] example_qrData[of sess1 qr_alice 30000]
      qr_alice_nonempty example_date age late
      example_store_checks_alice[of qr_alice 30000 "Some ''Alice''" "Some ''2024-01-01T09:00:00.000Z''"]
      example_insert_alice[of qr_alice 30000]
    by simp
qed

text \<open>
  C6 (as the code has it). The handler has one test for both directions, and one reply:
  a payload from the future and a payload older than 30 seconds both end the call
  with status 400 and the same message, and leave the store as it was.
\<close>

theorem scan_future_and_stale_same_reply:
  assumes "user_role (scan_user c) = ''lecturer''" "scan_qrData c = Some q" "q \<noteq> []"
    "JSON_parse env q = Some obj" "qr_timestamp obj = Some ts" "Date_parse env ts = Some qrTime"
  shows "(scan_currentTime c < qrTime \<longrightarrow>
            scan env st c =
              (Inl (Reply 400 ''QR code is invalid or expired. Must be scanned within 30 seconds.''), st))
       \<and> (30000 < scan_currentTime c - qrTime \<longrightarrow>
            scan env st c =
              (Inl (Reply 400 ''QR code is invalid or expired. Must be scanned within 30 seconds.''), st))"
proof -
  have w: "outsideWindow (timeDifference (scan_currentTime c) (Date_getTime env (qr_timestamp obj)))
     \<longleftrightarrow> scan_currentTime c < qrTime \<or> 30000 < scan_currentTime c - qrTime"
    using assms(5,6) by (rule scan_window_parsed)
  show ?thesis
    unfolding scan_def scan_checks_parsed[OF assms(1-4)] using w by simp
qed

theorem scan_future_and_stale_same_reply_witness:
  "user_role (scan_user (example_call sess1 qr_alice 45000)) = ''lecturer''
   \<and> scan_qrData (example_call sess1 qr_alice 45000) = Some qr_alice
   \<and> qr_alice \<noteq> []
   \<and> Date_parse example_env ''2024-01-01T09:00:00.000Z'' = Some 1704099600000
   \<and> 30000 < scan_currentTime (example_call sess1 qr_alice 45000) - 1704099600000
   \<and> scan example_env store1 (example_call sess1 qr_alice 45000) =
       (Inl (Reply 400 ''QR code is invalid or expired. Must be scanned within 30 seconds.''), store1)"
proof -
  have ts: "qr_timestamp \<lparr>qr_studentId = ''stu1'', qr_name = Some ''Alice'',
      qr_timestamp = Some ''2024-01-01T09:00:00.000Z''\<rparr> = Some ''2024-01-01T09:00:00.000Z''"
    by simp
  have age: "30000 < scan_currentTime (example_call sess1 qr_alice 45000) - 1704099600000"
    by (simp add: example_call_def)
  show ?thesis
    using scan_future_and_stale_same_reply[OF example_lecturer[of sess1 qr_alice 45000]
        example_qrData[of sess1 qr_alice 45000] qr_alice_nonempty
        example_parse_alice ts example_date, where st = store1]
      example_lecturer[of sess1 qr_alice 45000] example_qrData[of sess1 qr_alice 45000]
      qr_alice_nonempty example_date age
    by simp
qed

text \<open>
  C6 as stated fails: a code issued 5 seconds in the future and a code 45 seconds old
  get the very same reply, so the caller cannot tell the two apart.
\<close>

theorem scan_future_stale_indistinct:
  "scan example_env store1 (example_call sess1 qr_alice (- 5000)) =
     (Inl (Reply 400 ''QR code is invalid or expired. Must be scanned within 30 seconds.''), store1)
   \<and> scan example_env store1 (example_call sess1 qr_alice 45000) =
     (Inl (Reply 400 ''QR code is invalid or expired. Must be scanned within 30 seconds.''), store1)"
  by code_simp




text \<open>
  C8. A text that \<open>JSON.parse\<close> rejects is answered with 400 \<open>Invalid QR data format.\<close>
  A parsed object without a timestamp is not rejected: its time value is \<open>NaN\<close>, both
  comparisons of the window test are false, and the handler goes on to the store
  checks, whatever the clock says.
\<close>

theorem scan_missing_timestamp_passes_window:
  assumes "user_role (scan_user c) = ''lecturer''" "scan_qrData c = Some q" "q \<noteq> []"
  shows "(JSON_parse env q = None \<longrightarrow>
            scan_checks env st c = Inl (Reply 400 ''Invalid QR data format.''))
       \<and> (\<forall>obj. JSON_parse env q = Some obj \<and> qr_timestamp obj = None \<longrightarrow>
            scan_checks env st c = scan_store_checks st c obj)"
  using assms
  by (auto simp: scan_checks_def Date_getTime_None outsideWindow_NaN)

text \<open>
  Alice's code without its timestamp, scanned more than a day after the reference
  instant, marks her present.
\<close>

theorem scan_missing_timestamp_passes_window_witness:
  "user_role (scan_user (example_call sess1 qr_no_timestamp 99999999)) = ''lecturer''
   \<and> scan_qrData (example_call sess1 qr_no_timestamp 99999999) = Some qr_no_timestamp
   \<and> qr_no_timestamp \<noteq> []
   \<and> JSON_parse example_env qr_no_timestamp =
       Some \<lparr>qr_studentId = ''stu1'', qr_name = Some ''Alice'', qr_timestamp = None\<rparr>
   \<and> scan_checks example_env store1 (example_call sess1 qr_no_timestamp 99999999) =
       Inr (''stu1'', alice)
   \<and> scan example_env store1 (example_call sess1 qr_no_timestamp 99999999) =
       (Inr ''Alice'',
        store1\<lparr>attendanceRecords :=
          [\<lparr>record_sessionId = sess1, record_studentId = ''stu1'',
            record_status = Present, record_scanTime = Some 1704199599999\<rparr>]\<rparr>)"
proof -
  have sc: "scan_store_checks store1 (example_call sess1 qr_no_timestamp 99999999)
      \<lparr>qr_studentId = ''stu1'', qr_name = Some ''Alice'', qr_timestamp = None\<rparr> = Inr (''stu1'', alice)"
    by (rule example_store_checks_alice)
  have c: "scan_checks example_env store1 (example_call sess1 qr_no_timestamp 99999999) =
       Inr (''stu1'', alice)"
    using scan_missing_timestamp_passes_window[OF
        example_lecturer[of sess1 qr_no_timestamp 99999999]
        example_qrData[of sess1 qr_no_timestamp 99999999] qr_no_timestamp_nonempty,
        where env = example_env and st = store1]
      example_parse_no_timestamp sc
    by simp
  have i: "scan_insert store1 (example_call sess1 qr_no_timestamp 99999999) (''stu1'', alice) =
       (Inr ''Alice'',
        store1\<lparr>attendanceRecords :=
          [\<lparr>record_sessionId = sess1, record_studentId = ''stu1'',
            record_status = Present, record_scanTime = Some 1704199599999\<rparr>]\<rparr>)"
    by (simp add: scan_insert_def presentRecord_def insertRecords_def example_call_def
        store1_def alice_def)
  show ?thesis
    using c i example_lecturer[of sess1 qr_no_timestamp 99999999]
      example_qrData[of sess1 qr_no_timestamp 99999999] qr_no_timestamp_nonempty
      example_parse_no_timestamp
    by (simp add: scan_def)
qed

section \<open>Completing a session\<close>

lemma backfilled_Nil: "unscannedStudents st sid = [] \<Longrightarrow> backfilled st sid = st"
  by (simp add: backfilled_def)

lemma find_map_status:
  "find (\<lambda>s. session_id s = sid)
     (map (\<lambda>s. if session_id s = sid then s\<lparr>session_status := v\<rparr> else s) xs)
   = map_option (\<lambda>s. s\<lparr>session_status := v\<rparr>) (find (\<lambda>s. session_id s = sid) xs)"
  by (induction xs) auto

lemma find_updateStatus:
  "find (\<lambda>s. session_id s = sid) (attendanceSessions (updateStatus st sid v))
   = map_option (\<lambda>s. s\<lparr>session_status := v\<rparr>) (find (\<lambda>s. session_id s = sid) (attendanceSessions st))"
  by (simp add: updateStatus_def find_map_status)

lemma updateStatus_idem: "updateStatus (updateStatus st sid v) sid v = updateStatus st sid v"
  by (simp add: updateStatus_def comp_def)

lemma updateStatus_fields:
  "users (updateStatus st sid v) = users st"
  "attendanceRecords (updateStatus st sid v) = attendanceRecords st"
  by (simp_all add: updateStatus_def)

lemma unscanned_updateStatus:
  "unscannedStudents (updateStatus st sid v) sid' = unscannedStudents st sid'"
  by (simp add: unscannedStudents_def scannedStudentIds_def updateStatus_fields)

lemma scanned_backfilled:
  "scannedStudentIds (backfilled st sid) sid
   = scannedStudentIds st sid \<union> set (map user_id (unscannedStudents st sid))"
  by (auto simp: scannedStudentIds_def backfilled_def absentRecord_def)

lemma unscanned_backfilled: "unscannedStudents (backfilled st sid) sid = []"
proof -
  have "users (backfilled st sid) = users st" by (simp add: backfilled_def)
  then show ?thesis
    unfolding unscannedStudents_def scanned_backfilled
    by (auto simp: filter_empty_conv unscannedStudents_def)
qed

lemma backfill_keys:
  "map record_key (map (absentRecord sid) us) = map (\<lambda>u. (sid, user_id u)) us"
  by (simp add: record_key_def absentRecord_def comp_def)

lemma backfill_fits:
  assumes "distinct (map user_id (users st))"
  shows "distinct (map record_key (map (absentRecord sid) (unscannedStudents st sid)))"
    and "set (map record_key (map (absentRecord sid) (unscannedStudents st sid)))
           \<inter> set (map record_key (attendanceRecords st)) = {}"
proof -
  have d: "distinct (map user_id (unscannedStudents st sid))"
    unfolding unscannedStudents_def using assms by (simp add: distinct_map_filter)
  have "inj_on (\<lambda>u. (sid, user_id u)) (set (unscannedStudents st sid))"
    using d by (auto simp: distinct_map inj_on_def)
  moreover have "distinct (unscannedStudents st sid)" using d by (simp add: distinct_map)
  ultimately show "distinct (map record_key (map (absentRecord sid) (unscannedStudents st sid)))"
    unfolding backfill_keys by (simp add: distinct_map)
  show "set (map record_key (map (absentRecord sid) (unscannedStudents st sid)))
           \<inter> set (map record_key (attendanceRecords st)) = {}"
    unfolding backfill_keys
    by (auto simp: unscannedStudents_def scannedStudentIds_def record_key_def)
qed

lemma insert_backfill:
  assumes "distinct (map user_id (users st))"
  shows "insertRecords st (map (absentRecord sid) (unscannedStudents st sid)) = Inr (backfilled st sid)"
  using backfill_fits[OF assms, of sid] by (simp add: insertRecords_def backfilled_def)

lemma insertRecords_Inr:
  "insertRecords st new = Inr st1 \<Longrightarrow> st1 = st\<lparr>attendanceRecords := attendanceRecords st @ new\<rparr>"
  by (simp add: insertRecords_def split: if_splits)

lemma insertRecords_unique:
  "insertRecords st new = Inr st1 \<Longrightarrow> unique_idx (attendanceRecords st)
     \<Longrightarrow> unique_idx (attendanceRecords st1)"
proof -
  assume a: "insertRecords st new = Inr st1" and u: "unique_idx (attendanceRecords st)"
  have f: "distinct (map record_key new)"
    "set (map record_key new) \<inter> set (map record_key (attendanceRecords st)) = {}"
    "st1 = st\<lparr>attendanceRecords := attendanceRecords st @ new\<rparr>"
    using a by (simp_all add: insertRecords_def split: if_splits)
  have "distinct (map record_key (attendanceRecords st) @ map record_key new)"
    using f(1,2) u unfolding unique_idx_def distinct_append by blast
  then show ?thesis by (simp add: f(3) unique_idx_def)
qed

text \<open>What a successful run has done.\<close>

lemma complete_Inr:
  assumes "complete fails st caller sid = (Inr n, st')"
  shows "user_role caller = ''lecturer''"
    and "\<exists>s. find (\<lambda>s. session_id s = sid) (attendanceSessions st) = Some s
            \<and> session_lecturerId s = user_id caller"
    and "n = length (unscannedStudents st sid)"
    and "st' = updateStatus (backfilled st sid) sid Completed"
    and "insertRecords st (map (absentRecord sid) (unscannedStudents st sid)) = Inr (backfilled st sid)"
    and "\<not> fails UpdateStatus"
proof -
  show r: "user_role caller = ''lecturer''"
    using assms by (auto simp: complete_def split: if_splits)
  show s: "\<exists>s. find (\<lambda>s. session_id s = sid) (attendanceSessions st) = Some s
            \<and> session_lecturerId s = user_id caller"
    using assms by (auto simp: complete_def split: if_splits option.splits)
  show "n = length (unscannedStudents st sid)"
    using assms by (auto simp: complete_def split: if_splits option.splits sum.splits)
  show "st' = updateStatus (backfilled st sid) sid Completed"
    using assms
    by (auto simp: complete_def backfilled_Nil dest!: insertRecords_Inr
        split: if_splits option.splits sum.splits) (simp add: backfilled_def)
  show "insertRecords st (map (absentRecord sid) (unscannedStudents st sid)) = Inr (backfilled st sid)"
    using assms
    by (auto simp: complete_def  split: if_splits option.splits sum.splits)
       (auto simp: insertRecords_def backfilled_def split: if_splits)
  show "\<not> fails UpdateStatus"
    using assms by (auto simp: complete_def split: if_splits option.splits sum.splits)
qed


lemma complete_run:
  assumes "user_role caller = ''lecturer''" "\<not> fails FindSession"
    "find (\<lambda>s. session_id s = sid) (attendanceSessions st) = Some s"
    "session_lecturerId s = user_id caller"
    "\<not> fails SelectCourseStudents" "\<not> fails FindAllStudents" "\<not> fails InsertAbsent"
    "distinct (map user_id (users st))"
  shows "complete fails st caller sid =
     (if fails UpdateStatus then (Inl (Thrown StoreFailure), backfilled st sid)
      else (Inr (length (unscannedStudents st sid)), updateStatus (backfilled st sid) sid Completed))"
  using assms insert_backfill[OF assms(8), of sid]
  by (simp add: complete_def backfilled_Nil)

lemma recordsOf_empty_iff:
  "recordsOf st sid uid = [] \<longleftrightarrow> uid \<notin> scannedStudentIds st sid"
  by (auto simp: recordsOf_def scannedStudentIds_def filter_empty_conv)

lemma unscanned_alt:
  "unscannedStudents st sid =
     filter (\<lambda>u. user_role u = ''student'' \<and> recordsOf st sid (user_id u) = []) (users st)"
  by (simp add: unscannedStudents_def recordsOf_empty_iff conj_commute)

lemma filter_key_le1: "distinct (map f xs) \<Longrightarrow> length (filter (\<lambda>x. f x = k) xs) \<le> 1"
proof (induction xs)
  case Nil
  then show ?case by simp
next
  case (Cons x xs)
  show ?case
  proof (cases "f x = k")
    case True
    then have "k \<notin> f ` set xs" using Cons.prems by auto
    then have "filter (\<lambda>x. f x = k) xs = []" by (auto simp: filter_empty_conv)
    then show ?thesis using True by simp
  next
    case False
    then show ?thesis using Cons by simp
  qed
qed

lemma recordsOf_key: "recordsOf st sid uid = filter (\<lambda>r. record_key r = (sid, uid)) (attendanceRecords st)"
  by (simp add: recordsOf_def record_key_def)

lemma recordsOf_le1: "unique_idx (attendanceRecords st) \<Longrightarrow> length (recordsOf st sid uid) \<le> 1"
  unfolding recordsOf_key unique_idx_def by (rule filter_key_le1)

lemma recordsOf_updateStatus: "recordsOf (updateStatus st sid v) sid' uid = recordsOf st sid' uid"
  by (simp add: recordsOf_def updateStatus_fields)

lemma backfilled_fields:
  "users (backfilled st sid) = users st"
  "attendanceSessions (backfilled st sid) = attendanceSessions st"
  "attendanceRecords (backfilled st sid) =
     attendanceRecords st @ map (absentRecord sid) (unscannedStudents st sid)"
  by (simp_all add: backfilled_def)

lemma student_recorded_after_backfill:
  assumes "u \<in> set (users st)" "user_role u = ''student''"
  shows "recordsOf (backfilled st sid) sid (user_id u) \<noteq> []"
proof -
  have "user_id u \<in> scannedStudentIds (backfilled st sid) sid"
    unfolding scanned_backfilled using assms by (auto simp: unscannedStudents_def)
  then show ?thesis by (simp add: recordsOf_empty_iff)
qed

lemma example_complete_hyps:
  "user_role lecturer1 = ''lecturer''"
  "find (\<lambda>s. session_id s = sess1) (attendanceSessions store2) = Some session1"
  "session_lecturerId session1 = user_id lecturer1"
  "distinct (map user_id (users store2))"
  "unique_idx (attendanceRecords store2)"
  by (simp_all add: lecturer1_def store2_def store1_def session1_def alice_def bob_def
      unique_idx_def)

lemma example_unscanned: "unscannedStudents store2 sess1 = [bob]"
  by (simp add: unscannedStudents_def scannedStudentIds_def store2_def store1_def
      lecturer1_def alice_def bob_def)

text \<open>
  C5. A second run of Complete on the store the first run left inserts nothing, returns
  \<open>absentCount = 0\<close> and leaves the store as it is; and the \<open>absentCount\<close> of a run is
  the number of users of role \<open>student\<close> that had no record of any status in the
  session when the run started.
\<close>

theorem complete_twice:
  assumes "complete no_fault st caller sid = (Inr n, st')"
  shows "complete no_fault st' caller sid = (Inr 0, st')
       \<and> n = length (filter (\<lambda>u. user_role u = ''student'' \<and> recordsOf st sid (user_id u) = [])
                       (users st))"
proof -
  note f = complete_Inr[OF assms]
  obtain s where s: "find (\<lambda>s. session_id s = sid) (attendanceSessions st) = Some s"
    "session_lecturerId s = user_id caller" using f(2) by blast
  have fs: "find (\<lambda>s. session_id s = sid) (attendanceSessions st')
      = Some (s\<lparr>session_status := Completed\<rparr>)"
    unfolding f(4) find_updateStatus by (simp add: backfilled_fields s(1))
  have un: "unscannedStudents st' sid = []"
    unfolding f(4) unscanned_updateStatus by (rule unscanned_backfilled)
  have "complete no_fault st' caller sid = (Inr 0, updateStatus st' sid Completed)"
    using f(1) fs s(2) un by (simp add: complete_def no_fault_def)
  moreover have "updateStatus st' sid Completed = st'"
    unfolding f(4) by (rule updateStatus_idem)
  ultimately show ?thesis using f(3) by (simp add: unscanned_alt)
qed

theorem complete_twice_witness:
  "complete no_fault store2 lecturer1 sess1 = (Inr 1, store2_completed)
   \<and> complete no_fault store2_completed lecturer1 sess1 = (Inr 0, store2_completed)"
proof -
  have run: "complete no_fault store2 lecturer1 sess1 = (Inr 1, store2_completed)"
    by code_simp
  show ?thesis using complete_twice[OF run] run by simp
qed

text \<open>
  C1 (as the code has it). The handler never reads an enrolment: it takes every user of
  role \<open>student\<close>. With user ids and record keys unique, Complete by the owning
  lecturer succeeds, appends exactly one absent row for each user of role \<open>student\<close>
  that has no record in the session, and afterwards every user of role \<open>student\<close> has
  exactly one record in the session.
\<close>

theorem complete_backfills_every_student:
  assumes "user_role caller = ''lecturer''"
    "find (\<lambda>s. session_id s = sid) (attendanceSessions st) = Some s"
    "session_lecturerId s = user_id caller"
    "distinct (map user_id (users st))" "unique_idx (attendanceRecords st)"
  shows "complete no_fault st caller sid =
           (Inr (length (unscannedStudents st sid)), updateStatus (backfilled st sid) sid Completed)
       \<and> attendanceRecords (updateStatus (backfilled st sid) sid Completed) =
           attendanceRecords st @ map (absentRecord sid) (unscannedStudents st sid)
       \<and> (\<forall>u \<in> set (users st). user_role u = ''student'' \<longrightarrow>
             length (recordsOf (updateStatus (backfilled st sid) sid Completed) sid (user_id u)) = 1)"
proof -
  have run: "complete no_fault st caller sid =
           (Inr (length (unscannedStudents st sid)), updateStatus (backfilled st sid) sid Completed)"
    using complete_run[of caller no_fault sid st s] assms by (simp add: no_fault_def)
  have u: "unique_idx (attendanceRecords (backfilled st sid))"
    using insert_backfill[OF assms(4), of sid] assms(5) by (rule insertRecords_unique)
  have one: "length (recordsOf (backfilled st sid) sid (user_id u)) = 1"
    if "u \<in> set (users st)" "user_role u = ''student''" for u
  proof -
    have "length (recordsOf (backfilled st sid) sid (user_id u)) \<le> 1"
      using u by (rule recordsOf_le1)
    moreover have "recordsOf (backfilled st sid) sid (user_id u) \<noteq> []"
      using that by (rule student_recorded_after_backfill)
    ultimately show ?thesis by (cases "recordsOf (backfilled st sid) sid (user_id u)") auto
  qed
  show ?thesis using run one by (simp add: updateStatus_fields recordsOf_updateStatus backfilled_fields)
qed

theorem complete_backfills_every_student_witness:
  "user_role lecturer1 = ''lecturer''
   \<and> find (\<lambda>s. session_id s = sess1) (attendanceSessions store2) = Some session1
   \<and> session_lecturerId session1 = user_id lecturer1
   \<and> distinct (map user_id (users store2))
   \<and> unique_idx (attendanceRecords store2)
   \<and> bob \<in> set (users store2) \<and> user_role bob = ''student''
   \<and> complete no_fault store2 lecturer1 sess1 =
       (Inr 1, updateStatus (backfilled store2 sess1) sess1 Completed)
   \<and> length (recordsOf (updateStatus (backfilled store2 sess1) sess1 Completed)
               sess1 (user_id bob)) = 1"
proof -
  have b: "bob \<in> set (users store2)" "user_role bob = ''student''"
    by (simp_all add: store2_def store1_def bob_def)
  show ?thesis
    using complete_backfills_every_student[OF example_complete_hyps] example_complete_hyps b
    by (simp add: example_unscanned)
qed

text \<open>
  C1 as stated fails: Bob has only ever attended \<open>MA200\<close>, the handler's own query for
  the students of \<open>CS101\<close> does not list him, and completing the \<open>CS101\<close> session
  still gives him an absent record there.
\<close>

theorem complete_records_student_of_other_course:
  "session_courseId session1 = ''CS101''
   \<and> courseStudents store3 ''CS101'' = [''stu1'']
   \<and> recordsOf store3 sess1 ''stu2'' = []
   \<and> recordsOf (snd (complete no_fault store3 lecturer1 sess1)) sess1 ''stu2'' =
       [\<lparr>record_sessionId = sess1, record_studentId = ''stu2'',
         record_status = Absent, record_scanTime = None\<rparr>]"
  by code_simp

text \<open>
  C4 (as the code has it). The insert of the absent rows and the update of the status
  are two store operations with no transaction around them. When the update rejects
  after the insert, the handler throws and the store keeps the absent rows with the
  sessions unchanged, so the session is still active. The status is only ever set
  after the insert, and a retry on the store left behind inserts nothing and sets it.
\<close>

theorem complete_not_atomic:
  assumes "user_role caller = ''lecturer''"
    "find (\<lambda>s. session_id s = sid) (attendanceSessions st) = Some s"
    "session_lecturerId s = user_id caller"
    "distinct (map user_id (users st))"
  shows "complete update_fault st caller sid = (Inl (Thrown StoreFailure), backfilled st sid)
       \<and> attendanceSessions (backfilled st sid) = attendanceSessions st
       \<and> attendanceRecords (backfilled st sid) =
           attendanceRecords st @ map (absentRecord sid) (unscannedStudents st sid)
       \<and> complete no_fault (backfilled st sid) caller sid =
           (Inr 0, updateStatus (backfilled st sid) sid Completed)"
proof -
  have a: "complete update_fault st caller sid = (Inl (Thrown StoreFailure), backfilled st sid)"
    using complete_run[of caller update_fault sid st s] assms by (simp add: update_fault_def)
  have b: "complete no_fault (backfilled st sid) caller sid =
           (Inr 0, updateStatus (backfilled st sid) sid Completed)"
    using assms(1-3) unscanned_backfilled[of st sid]
    by (simp add: complete_def no_fault_def backfilled_fields)
  show ?thesis using a b by (simp add: backfilled_fields)
qed

theorem complete_not_atomic_witness:
  "user_role lecturer1 = ''lecturer''
   \<and> find (\<lambda>s. session_id s = sess1) (attendanceSessions store2) = Some session1
   \<and> session_lecturerId session1 = user_id lecturer1
   \<and> distinct (map user_id (users store2))
   \<and> complete update_fault store2 lecturer1 sess1 =
       (Inl (Thrown StoreFailure), backfilled store2 sess1)
   \<and> attendanceRecords (backfilled store2 sess1) =
       attendanceRecords store2 @ [absentRecord sess1 bob]"
  using complete_not_atomic[OF example_complete_hyps(1-4)] example_complete_hyps
  by (simp add: example_unscanned)

text \<open>
  C4 as stated fails: when the status update rejects, Bob's absent row is in the store
  and the session is still active.
\<close>

theorem complete_update_fault_leaves_backfill:
  "complete update_fault store2 lecturer1 sess1 =
     (Inl (Thrown StoreFailure),
      store2\<lparr>attendanceRecords :=
        [\<lparr>record_sessionId = sess1, record_studentId = ''stu1'',
          record_status = Present, record_scanTime = Some 1704099610000\<rparr>,
         \<lparr>record_sessionId = sess1, record_studentId = ''stu2'',
          record_status = Absent, record_scanTime = None\<rparr>]\<rparr>)
   \<and> map session_status (attendanceSessions (snd (complete update_fault store2 lecturer1 sess1)))
       = [Active]"
  by code_simp

section \<open>A student scanned twice\<close>

lemma scan_store_checks_Inr:
  assumes "scan_store_checks st c obj = Inr (sid, u)"
  shows "sid = qr_studentId obj"
    and "\<exists>s. find (\<lambda>s. session_id s = scan_sessionId c) (attendanceSessions st) = Some s
           \<and> session_lecturerId s = user_id (scan_user c) \<and> session_status s = Active"
    and "find (\<lambda>u. user_id u = qr_studentId obj) (users st) = Some u"
    and "recordsOf st (scan_sessionId c) sid = []"
    and "uuid_syntax (scan_sessionId c)"
  using assms by (auto simp: scan_store_checks_def split: option.splits if_splits)

lemma scan_checks_Inr:
  assumes "scan_checks env st c = Inr (sid, u)"
  shows "\<exists>q obj. user_role (scan_user c) = ''lecturer'' \<and> scan_qrData c = Some q \<and> q \<noteq> []
           \<and> JSON_parse env q = Some obj
           \<and> \<not> outsideWindow (timeDifference (scan_currentTime c) (Date_getTime env (qr_timestamp obj)))
           \<and> scan_store_checks st c obj = Inr (sid, u)"
  using assms by (auto simp: scan_checks_def split: option.splits if_splits)

lemma recordsOf_empty_key:
  "recordsOf st sess sid = [] \<longleftrightarrow> (sess, sid) \<notin> set (map record_key (attendanceRecords st))"
  by (auto simp: recordsOf_def record_key_def filter_empty_conv)

lemma scan_insert_fresh:
  assumes "recordsOf st (scan_sessionId c) sid = []"
  shows "scan_insert st c (sid, u) =
     (Inr (user_name u), st\<lparr>attendanceRecords := attendanceRecords st @ [presentRecord c sid]\<rparr>)"
  using assms
  by (simp add: scan_insert_def insertRecords_def recordsOf_empty_key record_key_def
      presentRecord_def)

lemma scan_insert_taken:
  assumes "recordsOf st (scan_sessionId c) sid \<noteq> []"
  shows "scan_insert st c (sid, u) = (Inl (Thrown UniqueViolation), st)"
  using assms
  by (simp add: scan_insert_def insertRecords_def recordsOf_empty_key record_key_def
      presentRecord_def)

lemma recordsOf_after_insert:
  "recordsOf (st\<lparr>attendanceRecords := attendanceRecords st @ [presentRecord c sid]\<rparr>)
     (scan_sessionId c) sid = recordsOf st (scan_sessionId c) sid @ [presentRecord c sid]"
  by (simp add: recordsOf_def presentRecord_def)

lemma scan_store_checks_taken:
  assumes "scan_store_checks st c obj = Inr (sid, u)"
    "users st1 = users st" "attendanceSessions st1 = attendanceSessions st"
    "recordsOf st1 (scan_sessionId c) sid \<noteq> []"
  shows "scan_store_checks st1 c obj = Inl (Reply 400 ''Student already scanned for this session.'')"
  using scan_store_checks_Inr[OF assms(1)] assms(2-4)
  by (auto simp: scan_store_checks_def)

lemma example_checks_alice:
  "scan_checks example_env store1 (example_call sess1 qr_alice 10000) = Inr (''stu1'', alice)"
  "scan_checks example_env store1 (example_call sess1 qr_alice 10050) = Inr (''stu1'', alice)"
  by code_simp+

lemma example_scan_alice:
  "scan example_env store1 (example_call sess1 qr_alice 10000) = (Inr ''Alice'', store2)"
  by code_simp

text \<open>
  C2 (as the code has it). The unique index keeps at most one record per session and
  student. The handler also looks for an existing record before it inserts, and the
  reply \<open>Student already scanned for this session.\<close> comes from that look-up only:
  a second scan after the first has finished gets it. When two scans of the same
  student and session both pass their checks before either inserts, the first insert
  succeeds and the second is rejected by the index; the second call ends with the
  rethrown store error, and the store holds exactly one record for the pair.
\<close>

theorem scan_duplicate_handling:
  assumes "unique_idx (attendanceRecords st)"
    "scan_checks env st a = Inr (sid, ua)" "scan_checks env st b = Inr (sid, ub)"
    "scan_sessionId b = scan_sessionId a"
  shows "scan_race env st a b =
           (Inr (user_name ua), Inl (Thrown UniqueViolation), snd (scan env st a))
       \<and> scan env st a = (Inr (user_name ua), snd (scan env st a))
       \<and> scan env (snd (scan env st a)) b =
           (Inl (Reply 400 ''Student already scanned for this session.''), snd (scan env st a))
       \<and> unique_idx (attendanceRecords (snd (scan env st a)))
       \<and> length (recordsOf (snd (scan env st a)) (scan_sessionId a) sid) = 1"
proof -
  define st1 where "st1 = st\<lparr>attendanceRecords := attendanceRecords st @ [presentRecord a sid]\<rparr>"
  obtain qa obja where a: "scan_store_checks st a obja = Inr (sid, ua)"
    using scan_checks_Inr[OF assms(2)] by blast
  obtain qb objb where b: "user_role (scan_user b) = ''lecturer''" "scan_qrData b = Some qb"
    "qb \<noteq> []" "JSON_parse env qb = Some objb"
    "\<not> outsideWindow (timeDifference (scan_currentTime b) (Date_getTime env (qr_timestamp objb)))"
    "scan_store_checks st b objb = Inr (sid, ub)"
    using scan_checks_Inr[OF assms(3)] by blast
  have fresh: "recordsOf st (scan_sessionId a) sid = []"
    using scan_store_checks_Inr(4)[OF a] .
  have ia: "scan_insert st a (sid, ua) = (Inr (user_name ua), st1)"
    unfolding st1_def using fresh by (rule scan_insert_fresh)
  have sa: "scan env st a = (Inr (user_name ua), st1)"
    by (simp add: scan_def assms(2) ia)
  have r1: "recordsOf st1 (scan_sessionId a) sid = [presentRecord a sid]"
    unfolding st1_def recordsOf_after_insert fresh by simp
  have taken: "recordsOf st1 (scan_sessionId b) sid \<noteq> []"
    using r1 assms(4) by simp
  have ib: "scan_insert st1 b (sid, ub) = (Inl (Thrown UniqueViolation), st1)"
    using taken by (rule scan_insert_taken)
  have race: "scan_race env st a b = (Inr (user_name ua), Inl (Thrown UniqueViolation), st1)"
    by (simp add: scan_race_def assms(2,3) ia ib)
  have "scan_store_checks st1 b objb = Inl (Reply 400 ''Student already scanned for this session.'')"
    using b(6) _ _ taken by (rule scan_store_checks_taken) (simp_all add: st1_def)
  then have "scan_checks env st1 b = Inl (Reply 400 ''Student already scanned for this session.'')"
    using b(5) by (simp add: scan_checks_parsed[OF b(1-4)])
  then have sb: "scan env st1 b = (Inl (Reply 400 ''Student already scanned for this session.''), st1)"
    by (simp add: scan_def)
  have "insertRecords st [presentRecord a sid] = Inr st1"
    using fresh by (simp add: insertRecords_def recordsOf_empty_key record_key_def presentRecord_def st1_def)
  then have u: "unique_idx (attendanceRecords st1)"
    using assms(1) by (rule insertRecords_unique)
  show ?thesis using race sa sb u r1 by simp
qed

theorem scan_duplicate_handling_witness:
  "unique_idx (attendanceRecords store1)
   \<and> scan_checks example_env store1 (example_call sess1 qr_alice 10000) = Inr (''stu1'', alice)
   \<and> scan_checks example_env store1 (example_call sess1 qr_alice 10050) = Inr (''stu1'', alice)
   \<and> scan_race example_env store1 (example_call sess1 qr_alice 10000)
        (example_call sess1 qr_alice 10050) =
       (Inr ''Alice'', Inl (Thrown UniqueViolation), store2)
   \<and> scan example_env store2 (example_call sess1 qr_alice 10050) =
       (Inl (Reply 400 ''Student already scanned for this session.''), store2)"
proof -
  have u: "unique_idx (attendanceRecords store1)" by (simp add: unique_idx_def store1_def)
  have s: "scan_sessionId (example_call sess1 qr_alice 10050) =
      scan_sessionId (example_call sess1 qr_alice 10000)" by (simp add: example_call_def)
  show ?thesis
    using scan_duplicate_handling[OF u example_checks_alice s] u example_checks_alice
    by (simp add: example_scan_alice alice_def)
qed

text \<open>
  C2 as stated fails: of two racing scans of Alice's code the loser does not get the
  duplicate-scan reply; it ends with the unique violation thrown by the store.
\<close>

theorem scan_race_loser_throws:
  "fst (snd (scan_race example_env store1 (example_call sess1 qr_alice 10000)
        (example_call sess1 qr_alice 10050))) = Inl (Thrown UniqueViolation)
   \<and> fst (snd (scan_race example_env store1 (example_call sess1 qr_alice 10000)
        (example_call sess1 qr_alice 10050))) \<noteq>
       Inl (Reply 400 ''Student already scanned for this session.'')"
  by code_simp

section \<open>Statistics\<close>

lemma Map_set_keys:
  "map fst (Map_set m k v) = (if k \<in> set (map fst m) then map fst m else map fst m @ [k])"
  by (induction m k v rule: Map_set.induct) (auto simp: rev_image_eqI)

lemma Map_set_distinct: "distinct (map fst m) \<Longrightarrow> distinct (map fst (Map_set m k v))"
  by (simp add: Map_set_keys)

lemma Map_set_values: "set (Map_set m k v) \<subseteq> insert (k, v) (set m)"
  by (induction m k v rule: Map_set.induct) auto

lemma Map_set_key_set: "set (map fst (Map_set m k v)) = insert k (set (map fst m))"
  by (auto simp: Map_set_keys)

lemma Map_fold_keys:
  "set (map fst (foldl (\<lambda>m (k, v). Map_set m k v) m es)) = set (map fst m) \<union> set (map fst es)"
proof (induction es arbitrary: m)
  case Nil
  then show ?case by simp
next
  case (Cons e es)
  obtain k v where e: "e = (k, v)" by (cases e)
  have "set (map fst (foldl (\<lambda>m (k, v). Map_set m k v) (Map_set m k v) es))
      = set (map fst (Map_set m k v)) \<union> set (map fst es)" by (rule Cons.IH)
  then show ?case unfolding e Map_set_key_set by simp
qed

lemma Map_fold_distinct:
  "distinct (map fst m) \<Longrightarrow> distinct (map fst (foldl (\<lambda>m (k, v). Map_set m k v) m es))"
  by (induction es arbitrary: m) (auto simp: Map_set_distinct)

lemma Map_fold_keyed:
  "list_all (\<lambda>(k, v). f v = k) m \<Longrightarrow> list_all (\<lambda>(k, v). f v = k) es
     \<Longrightarrow> list_all (\<lambda>(k, v). f v = k) (foldl (\<lambda>m (k, v). Map_set m k v) m es)"
proof (induction es arbitrary: m)
  case Nil
  then show ?case by simp
next
  case (Cons e es)
  obtain k v where e: "e = (k, v)" by (cases e)
  have "list_all (\<lambda>(k, v). f v = k) (Map_set m k v)"
    using Cons.prems Map_set_values[of m k v] unfolding e list_all_iff by auto
  then show ?case using Cons unfolding e by simp
qed

lemma Map_values_keys:
  "map f (Map_values (map (\<lambda>p. (f p, p)) xs))
     = map fst (foldl (\<lambda>m (k, v). Map_set m k v) [] (map (\<lambda>p. (f p, p)) xs))"
proof -
  have "list_all (\<lambda>(k, v). f v = k) (foldl (\<lambda>m (k, v). Map_set m k v) [] (map (\<lambda>p. (f p, p)) xs))"
    by (rule Map_fold_keyed) (simp_all add: list_all_iff)
  then show ?thesis
    unfolding Map_values_def list_all_iff by (auto simp: map_eq_conv)
qed

lemma Map_values_distinct: "distinct (map f (Map_values (map (\<lambda>p. (f p, p)) xs)))"
  unfolding Map_values_keys by (rule Map_fold_distinct) simp

lemma Map_values_set: "set (map f (Map_values (map (\<lambda>p. (f p, p)) xs))) = set (map f xs)"
  unfolding Map_values_keys Map_fold_keys by (simp add: comp_def)

lemma stat_fields:
  "totalStudents (computeStatistics rows) =
     Set_size (map row_studentId (filter (\<lambda>r. row_status r = Present) rows
                                   @ filter (\<lambda>r. row_status r = Absent) rows))"
  by (simp add: computeStatistics_def Let_def listOf_def comp_def)

lemma total_card: "totalStudents (computeStatistics rows) = card (set (map row_studentId rows))"
proof -
  have "set (map row_studentId (filter (\<lambda>r. row_status r = Present) rows
                                 @ filter (\<lambda>r. row_status r = Absent) rows))
        = set (map row_studentId rows)"
  proof -
    have "\<And>r. row_status r = Present \<or> row_status r = Absent"
      by (metis attendance_status.exhaust)
    then show ?thesis by auto
  qed
  then show ?thesis
    unfolding stat_fields Set_size_def
    by (metis length_remdups_card_conv)
qed

lemma percentage_eq:
  "percentage (computeStatistics rows) =
     (if 0 < totalStudents (computeStatistics rows)
      then Num (of_int \<lfloor>fl64 (fl64 (of_nat (presentCount (computeStatistics rows))
                          / of_nat (totalStudents (computeStatistics rows))) * 100) + 1 / 2\<rfloor>)
      else Num 0)"
  by (simp add: computeStatistics_def Let_def)

lemma total_zero_iff: "totalStudents (computeStatistics rows) = 0 \<longleftrightarrow> rows = []"
  by (simp add: total_card)

lemma example_rows4:
  "statistics_query store4 ''lec1'' (Some ''CS101'') None =
     [\<lparr>row_studentId = ''stu1'', row_studentName = ''Alice'', row_status = Present\<rparr>,
      \<lparr>row_studentId = ''stu1'', row_studentName = ''Alice'', row_status = Present\<rparr>]"
  by code_simp

lemma example_stats4:
  "computeStatistics (statistics_query store4 ''lec1'' (Some ''CS101'') None) =
     \<lparr>totalStudents = 1, presentCount = 2, absentCount = 0, percentage = Num 200,
      presentList = [(''stu1'', ''Alice'')], absentList = []\<rparr>"
  by code_simp

lemma example_stats40:
  "totalStudents (computeStatistics (statistics_query class40 ''lec1'' None None)) = 40"
  "presentCount (computeStatistics (statistics_query class40 ''lec1'' None None)) = 23"
  "percentage (computeStatistics (statistics_query class40 ''lec1'' None None)) = Num 57"
  by code_simp+

lemma exact_round_23_40: "round (100 * 23 / 40 :: rat) = 58"
  by code_simp

text \<open>
  C9 (as the code has it). With no matching record the percentage is \<open>0\<close> and no
  division is made. With matching records the percentage is \<open>Math.round\<close> of the
  binary64 product of \<open>100\<close> and the binary64 quotient \<open>presentCount / totalStudents\<close>:
  a whole number, never \<open>NaN\<close>, and (for up to \<open>2 ^ 40\<close> matching records) at most one
  away from \<open>100 \<times> presentCount / totalStudents\<close> rounded.
\<close>

theorem statistics_percentage:
  "(totalStudents (computeStatistics rows) = 0 \<longleftrightarrow> rows = [])
   \<and> (rows = [] \<longrightarrow> percentage (computeStatistics rows) = Num 0)
   \<and> (rows \<noteq> [] \<longrightarrow>
        percentage (computeStatistics rows) =
          Num (of_int \<lfloor>fl64 (fl64 (of_nat (presentCount (computeStatistics rows))
                                    / of_nat (totalStudents (computeStatistics rows))) * 100)
                         + 1 / 2\<rfloor>))
   \<and> (rows \<noteq> [] \<and> length rows \<le> 2 ^ 40 \<longrightarrow>
        \<bar>\<lfloor>fl64 (fl64 (of_nat (presentCount (computeStatistics rows))
                          / of_nat (totalStudents (computeStatistics rows))) * 100) + 1 / 2\<rfloor>
          - round (100 * (of_nat (presentCount (computeStatistics rows)) :: rat)
                     / of_nat (totalStudents (computeStatistics rows)))\<bar> \<le> 1)"
proof -
  define p where "p = presentCount (computeStatistics rows)"
  define t where "t = totalStudents (computeStatistics rows)"
  have close: "\<bar>\<lfloor>fl64 (fl64 (of_nat p / of_nat t) * 100) + 1 / 2\<rfloor>
          - round (100 * (of_nat p :: rat) / of_nat t)\<bar> \<le> 1"
    if ne: "rows \<noteq> []" and le: "length rows \<le> 2 ^ 40"
  proof -
    have t1: "1 \<le> t" using ne total_zero_iff[of rows] by (simp add: t_def Suc_le_eq)
    have "p \<le> length rows"
      by (simp add: p_def computeStatistics_def Let_def listOf_def)
    then have pb: "p \<le> 2 ^ 40" using le by simp
    have "(of_nat p :: rat) / of_nat t \<le> of_nat p / 1"
      using t1 by (intro divide_left_mono) simp_all
    moreover have "(of_nat p :: rat) \<le> of_nat (2 ^ 40)" using pb by (simp only: of_nat_le_iff)
    ultimately have q2: "(of_nat p :: rat) / of_nat t \<le> 2 ^ 40" by simp
    have q0: "0 \<le> (of_nat p :: rat) / of_nat t" by simp
    have "\<bar>fl64 (fl64 (of_nat p / of_nat t) * 100) - 100 * (of_nat p / of_nat t)\<bar> < 1"
      using percent_close[OF q0 q2] by linarith
    then show ?thesis using round_close[of "fl64 (fl64 (of_nat p / of_nat t) * 100)"
          "100 * (of_nat p / of_nat t)"] by simp
  qed
  show ?thesis
    using total_zero_iff[of rows] percentage_eq[of rows] close
    by (cases "rows = []") (simp_all add: p_def t_def)
qed

theorem statistics_percentage_witness:
  "statistics_query store2_completed ''lec1'' None None \<noteq> []
   \<and> presentCount (computeStatistics (statistics_query store2_completed ''lec1'' None None)) = 1
   \<and> totalStudents (computeStatistics (statistics_query store2_completed ''lec1'' None None)) = 2
   \<and> percentage (computeStatistics (statistics_query store2_completed ''lec1'' None None)) = Num 50"
proof -
  have ne: "statistics_query store2_completed ''lec1'' None None \<noteq> []" by code_simp
  have p: "presentCount (computeStatistics (statistics_query store2_completed ''lec1'' None None)) = 1"
    by code_simp
  have t: "totalStudents (computeStatistics (statistics_query store2_completed ''lec1'' None None)) = 2"
    by code_simp
  have r: "\<lfloor>fl64 (fl64 (1 / 2) * 100) + 1 / 2\<rfloor> = 50" by code_simp
  show ?thesis
    using statistics_percentage[of "statistics_query store2_completed ''lec1'' None None"] ne
    by (simp add: p t r)
qed

text \<open>
  C9 as stated fails: with 23 of 40 students present, \<open>100 \<times> 23 / 40\<close> is \<open>57.5\<close> and
  rounds to \<open>58\<close>, but the quotient \<open>23 / 40\<close> is rounded down to binary64, its product
  with \<open>100\<close> is just below \<open>57.5\<close>, and the handler reports \<open>57\<close>.
\<close>

theorem statistics_percentage_23_of_40:
  "totalStudents (computeStatistics (statistics_query class40 ''lec1'' None None)) = 40
   \<and> presentCount (computeStatistics (statistics_query class40 ''lec1'' None None)) = 23
   \<and> percentage (computeStatistics (statistics_query class40 ''lec1'' None None)) = Num 57
   \<and> round (100 * 23 / 40 :: rat) = 58"
  using example_stats40 exact_round_23_40 by simp

text \<open>
  C10. \<open>presentCount\<close> and \<open>absentCount\<close> are the numbers of matching rows of each
  status, while the two lists hold every student id of their status once and
  \<open>totalStudents\<close> is the number of distinct student ids. For Alice, present in two
  sessions of \<open>CS101\<close>, the handler returns \<open>presentCount = 2\<close>, a \<open>presentList\<close> of one
  entry, \<open>totalStudents = 1\<close> and a percentage of \<open>200\<close>.
\<close>

theorem statistics_counts_before_dedup:
  "presentCount (computeStatistics rows) = length (filter (\<lambda>r. row_status r = Present) rows)
   \<and> absentCount (computeStatistics rows) = length (filter (\<lambda>r. row_status r = Absent) rows)
   \<and> distinct (map fst (presentList (computeStatistics rows)))
   \<and> set (map fst (presentList (computeStatistics rows))) =
       set (map row_studentId (filter (\<lambda>r. row_status r = Present) rows))
   \<and> distinct (map fst (absentList (computeStatistics rows)))
   \<and> set (map fst (absentList (computeStatistics rows))) =
       set (map row_studentId (filter (\<lambda>r. row_status r = Absent) rows))
   \<and> totalStudents (computeStatistics rows) = card (set (map row_studentId rows))
   \<and> statistics store4 lecturer1 (Some ''CS101'') None =
       Inr \<lparr>totalStudents = 1, presentCount = 2, absentCount = 0, percentage = Num 200,
            presentList = [(''stu1'', ''Alice'')], absentList = []\<rparr>"
proof -
  have l: "presentList (computeStatistics rows) = Map_values (map (\<lambda>p. (fst p, p)) (listOf Present rows))"
    "absentList (computeStatistics rows) = Map_values (map (\<lambda>p. (fst p, p)) (listOf Absent rows))"
    by (simp_all add: computeStatistics_def Let_def)
  have k: "map fst (listOf v rows) = map row_studentId (filter (\<lambda>r. row_status r = v) rows)" for v
    by (simp add: listOf_def comp_def)
  have c: "presentCount (computeStatistics rows) = length (filter (\<lambda>r. row_status r = Present) rows)"
    "absentCount (computeStatistics rows) = length (filter (\<lambda>r. row_status r = Absent) rows)"
    by (simp_all add: computeStatistics_def Let_def listOf_def)
  have s: "statistics store4 lecturer1 (Some ''CS101'') None =
       Inr \<lparr>totalStudents = 1, presentCount = 2, absentCount = 0, percentage = Num 200,
            presentList = [(''stu1'', ''Alice'')], absentList = []\<rparr>"
    using example_stats4 by (simp add: statistics_def lecturer1_def)
  show ?thesis
    unfolding l using c s total_card[of rows]
    by (simp only: Map_values_distinct Map_values_set k simp_thms)
qed

end
